theory Spec2Isabelle
  imports Main "HOL-Library.AList" "HOL-Library.Multiset"
begin

section \<open>The command base layer of briefcase\<close>

text \<open>
  This theory embeds \<^verbatim>\<open>src/briefcase/commands/base.py\<close>: the function
  \<^verbatim>\<open>create_config\<close> and the methods \<^verbatim>\<open>parse_config\<close> and
  \<^verbatim>\<open>download_url\<close> of \<^verbatim>\<open>BaseCommand\<close>. Exceptions are values of
  the type \<open>error\<close>, and a computation that may raise returns \<open>error + 'a\<close> with
  \<open>Inl\<close> for the exception. The file system, the standard output and the requests sent
  are explicit state. The collaborators the module receives from outside (the classes
  to instantiate, the TOML reader of \<^verbatim>\<open>briefcase.config\<close>, the HTTP client) are
  parameters of the definitions.
\<close>

subsection \<open>Exceptions\<close>

datatype error =
    TypeError string
  | ValueError string
  | ZeroDivisionError
  | FileNotFoundError
  | FileExistsError
  | NotADirectoryError
  | IsADirectoryError
  | BriefcaseConfigError string
  | MissingNetworkResourceError string
  | BadNetworkResourceError string int
  | OtherError string

text \<open>The handler \<^verbatim>\<open>except TypeError\<close> of \<^verbatim>\<open>create_config\<close>.\<close>

fun is_TypeError :: "error \<Rightarrow> bool" where
  "is_TypeError (TypeError _) = True"
| "is_TypeError _ = False"

text \<open>The handler \<^verbatim>\<open>except FileNotFoundError\<close> of \<^verbatim>\<open>parse_config\<close>.\<close>

fun is_FileNotFoundError :: "error \<Rightarrow> bool" where
  "is_FileNotFoundError FileNotFoundError = True"
| "is_FileNotFoundError _ = False"

subsection \<open>Strings\<close>

text \<open>
  Python's \<^verbatim>\<open>sep.join(xs)\<close>, and \<^verbatim>\<open>"'{arg}'".format(arg=arg)\<close>. The
  apostrophe is the character \<open>0x27\<close>.
\<close>

fun join :: "string \<Rightarrow> string list \<Rightarrow> string" where
  "join sep [] = []"
| "join sep [x] = x"
| "join sep (x # y # ys) = x @ sep @ join sep (y # ys)"

definition quote :: "string \<Rightarrow> string" where
  "quote arg = [CHR 0x27] @ arg @ [CHR 0x27]"

subsection \<open>Configuration values and classes\<close>

text \<open>
  The values a configuration mapping holds. A Python \<^verbatim>\<open>dict\<close> with string keys is
  an association list in insertion order.
\<close>

datatype pyval =
    NoneVal
  | BoolVal bool
  | IntVal int
  | StrVal string
  | ListVal "pyval list"

type_synonym pydict = "(string \<times> pyval) list"

text \<open>An object is the dictionary of its attributes.\<close>

type_synonym pyobj = "(string \<times> pyval) list"

text \<open>
  What \<^verbatim>\<open>inspect.signature(klass.__init__).parameters\<close> reports of each parameter:
  its name, its kind and its default (\<open>None\<close> for \<^verbatim>\<open>inspect._empty\<close>).
\<close>

datatype param_kind =
    POSITIONAL_ONLY
  | POSITIONAL_OR_KEYWORD
  | VAR_POSITIONAL
  | KEYWORD_ONLY
  | VAR_KEYWORD

record param =
  pname :: string
  pkind :: param_kind
  pdefault :: "pyval option"

text \<open>
  What the body of a constructor receives: the named parameters with their values, in
  the order of declaration, and the dictionary of the \<^verbatim>\<open>**kwargs\<close> parameter.
\<close>

record bound_args =
  named :: pydict
  var_keyword :: pydict

text \<open>
  A class, as far as \<^verbatim>\<open>create_config\<close> uses one: the parameters of
  \<^verbatim>\<open>__init__\<close> in the order of declaration, the receiver first, and the body of
  \<^verbatim>\<open>__init__\<close>, which raises or leaves the object.
\<close>

record klass =
  init_params :: "param list"
  init_body :: "bound_args \<Rightarrow> error + pyobj"

subsection \<open>Calling a class with keyword arguments\<close>

text \<open>
  \<^verbatim>\<open>klass(**config)\<close> passes the new object as the only positional argument and
  every entry of \<^verbatim>\<open>config\<close> as a keyword argument. The interpreter raises
  \<^verbatim>\<open>TypeError\<close> when the object cannot be taken positionally, when a keyword names
  the parameter that took the object, when a keyword names no parameter that accepts
  keywords and there is no \<^verbatim>\<open>**kwargs\<close>, or when a parameter without default stays
  unbound. Otherwise the body runs.
\<close>

definition takes_receiver :: "param list \<Rightarrow> bool" where
  "takes_receiver ps =
     (case ps of
        [] \<Rightarrow> False
      | p # _ \<Rightarrow> pkind p \<in> {POSITIONAL_ONLY, POSITIONAL_OR_KEYWORD, VAR_POSITIONAL})"

text \<open>The parameters left once the receiver is bound.\<close>

definition after_receiver :: "param list \<Rightarrow> param list" where
  "after_receiver ps =
     (case ps of
        [] \<Rightarrow> []
      | p # qs \<Rightarrow> if pkind p = VAR_POSITIONAL then p # qs else qs)"

text \<open>The name a keyword may not repeat: that of a receiver that also accepts keywords.\<close>

definition receiver_keyword :: "param list \<Rightarrow> string option" where
  "receiver_keyword ps =
     (case ps of
        [] \<Rightarrow> None
      | p # _ \<Rightarrow> if pkind p = POSITIONAL_OR_KEYWORD then Some (pname p) else None)"

definition keyword_names :: "param list \<Rightarrow> string list" where
  "keyword_names ps =
     map pname (filter (\<lambda>p. pkind p \<in> {POSITIONAL_OR_KEYWORD, KEYWORD_ONLY}) (after_receiver ps))"

definition has_var_keyword :: "param list \<Rightarrow> bool" where
  "has_var_keyword ps = (\<exists>p \<in> set ps. pkind p = VAR_KEYWORD)"

text \<open>The parameters that need a value: all but \<^verbatim>\<open>*args\<close> and \<^verbatim>\<open>**kwargs\<close>.\<close>

definition value_params :: "param list \<Rightarrow> param list" where
  "value_params ps =
     filter (\<lambda>p. pkind p \<in> {POSITIONAL_ONLY, POSITIONAL_OR_KEYWORD, KEYWORD_ONLY}) (after_receiver ps)"

definition unbound :: "param list \<Rightarrow> pydict \<Rightarrow> param list" where
  "unbound ps config =
     filter (\<lambda>p. pdefault p = None \<and>
                 (pkind p = POSITIONAL_ONLY \<or> pname p \<notin> set (map fst config)))
       (value_params ps)"

definition bind_value :: "pydict \<Rightarrow> param \<Rightarrow> string \<times> pyval" where
  "bind_value config p =
     (pname p,
      case (if pkind p = POSITIONAL_ONLY then None else map_of config (pname p)) of
        Some v \<Rightarrow> v
      | None \<Rightarrow> (case pdefault p of Some d \<Rightarrow> d | None \<Rightarrow> NoneVal))"

definition bind_args :: "param list \<Rightarrow> pydict \<Rightarrow> bound_args" where
  "bind_args ps config =
     \<lparr>named = map (bind_value config) (value_params ps),
      var_keyword = filter (\<lambda>(k, v). k \<notin> set (keyword_names ps)) config\<rparr>"

definition construct :: "klass \<Rightarrow> pydict \<Rightarrow> error + pyobj" where
  "construct klass config =
     (let ps = init_params klass; keys = map fst config in
      if \<not> takes_receiver ps then
        Inl (TypeError ''__init__() takes 0 positional arguments but 1 was given'')
      else if \<exists>k \<in> set keys. receiver_keyword ps = Some k then
        Inl (TypeError ''__init__() got multiple values for an argument'')
      else if \<not> has_var_keyword ps \<and> (\<exists>k \<in> set keys. k \<notin> set (keyword_names ps)) then
        Inl (TypeError ''__init__() got an unexpected keyword argument'')
      else if unbound ps config \<noteq> [] then
        Inl (TypeError ''__init__() missing required arguments'')
      else init_body klass (bind_args ps config))"

subsection \<open>create_config\<close>

text \<open>
  \<^verbatim>\<open>required_args\<close> is a set comprehension over the parameters of
  \<^verbatim>\<open>klass.__init__\<close>, and \<^verbatim>\<open>missing_args\<close> the set difference with the keys
  of \<^verbatim>\<open>config\<close>. Both are duplicate-free lists here.
\<close>

definition required_args :: "klass \<Rightarrow> string list" where
  "required_args klass =
     remdups (map pname
       (filter (\<lambda>p. pdefault p = None \<and> pname p \<notin> {''self'', ''kwargs''})
          (init_params klass)))"

definition missing_args :: "klass \<Rightarrow> pydict \<Rightarrow> string list" where
  "missing_args klass config =
     filter (\<lambda>name. name \<notin> set (map fst config)) (required_args klass)"

text \<open>
  The generator in \<^verbatim>\<open>', '.join(...)\<close> iterates over the set \<^verbatim>\<open>missing_args\<close>.
  Python iterates over a set of strings in the order of their slots in the hash table,
  and the hash of a string changes from one process to the next. The order is therefore
  the parameter \<open>set_iter\<close>: a function that permutes the elements of the set.
\<close>

definition create_config ::
  "(string list \<Rightarrow> string list) \<Rightarrow> klass \<Rightarrow> pydict \<Rightarrow> string \<Rightarrow> error + pyobj" where
  "create_config set_iter klass config msg =
     (case construct klass config of
        Inr obj \<Rightarrow> Inr obj
      | Inl e \<Rightarrow>
          if is_TypeError e then
            (let missing = join '', '' (map quote (set_iter (missing_args klass config)))
             in Inl (BriefcaseConfigError (msg @ '' is incomplete (missing '' @ missing @ '')'')))
          else Inl e)"

text \<open>
  The message as the specification words it. The required parameters are the parameters
  of the constructor after \<^verbatim>\<open>self\<close>, taken by their kind: those that have no
  default and are neither the catch-all of the positional arguments nor the one of the
  keywords. The missing ones are those whose name is no key of \<^verbatim>\<open>config\<close>, listed
  in the order in which the constructor declares them.
\<close>

definition spec_required_args :: "klass \<Rightarrow> string list" where
  "spec_required_args klass =
     map pname
       (filter (\<lambda>p. pdefault p = None
                    \<and> pkind p \<in> {POSITIONAL_ONLY, POSITIONAL_OR_KEYWORD, KEYWORD_ONLY})
          (tl (init_params klass)))"

definition spec_missing :: "klass \<Rightarrow> pydict \<Rightarrow> string list" where
  "spec_missing klass config =
     filter (\<lambda>name. name \<notin> set (map fst config)) (spec_required_args klass)"

definition spec_incomplete_message :: "string \<Rightarrow> klass \<Rightarrow> pydict \<Rightarrow> string" where
  "spec_incomplete_message msg klass config =
     msg @ '' is incomplete (missing '' @ join '', '' (map quote (spec_missing klass config)) @ '')''"

subsection \<open>parse_config\<close>

text \<open>
  The part of a command that \<^verbatim>\<open>parse_config\<close> reads and writes. The two classes
  are the class attributes \<^verbatim>\<open>GLOBAL_CONFIG_CLASS\<close> and \<^verbatim>\<open>APP_CONFIG_CLASS\<close>.
\<close>

record command =
  platform :: string
  output_format :: string
  global_config :: "pyobj option"
  apps :: "(string \<times> pyobj) list"
  GLOBAL_CONFIG_CLASS :: klass
  APP_CONFIG_CLASS :: klass

text \<open>
  A path is the list of its components below the root; the file system maps a path to
  the directory or the file found there. The root is the empty path and always a
  directory. Symbolic links, permissions and the components \<^verbatim>\<open>..\<close> are outside the
  model.
\<close>

type_synonym path = "string list"

type_synonym bytes = "char list"

datatype node = Dir | File bytes

type_synonym filesystem = "path \<Rightarrow> node option"

definition lookup :: "filesystem \<Rightarrow> path \<Rightarrow> node option" where
  "lookup fs p = (if p = [] then Some Dir else fs p)"

definition exists_path :: "filesystem \<Rightarrow> path \<Rightarrow> bool" where
  "exists_path fs p = (lookup fs p \<noteq> None)"

definition is_dir :: "filesystem \<Rightarrow> path \<Rightarrow> bool" where
  "is_dir fs p = (lookup fs p = Some Dir)"

text \<open>
  \<^verbatim>\<open>open(filename)\<close> for reading, followed by reading the whole file. The system
  walks the directories of the path from the root: the first one that is missing ends
  the walk with \<^verbatim>\<open>FileNotFoundError\<close>, a regular file in the place of one with
  \<^verbatim>\<open>NotADirectoryError\<close>. \<open>first_obstacle fs dir p\<close> walks the components of
  \<open>p\<close> but the last, below the directory \<open>dir\<close>.
\<close>

fun first_obstacle :: "filesystem \<Rightarrow> path \<Rightarrow> path \<Rightarrow> error option" where
  "first_obstacle fs dir [] = None"
| "first_obstacle fs dir [name] = None"
| "first_obstacle fs dir (c # cs) =
     (case lookup fs (dir @ [c]) of
        None \<Rightarrow> Some FileNotFoundError
      | Some (File _) \<Rightarrow> Some NotADirectoryError
      | Some Dir \<Rightarrow> first_obstacle fs (dir @ [c]) cs)"

definition open_read :: "filesystem \<Rightarrow> path \<Rightarrow> error + bytes" where
  "open_read fs p =
     (case first_obstacle fs [] p of
        Some e \<Rightarrow> Inl e
      | None \<Rightarrow>
          (case lookup fs p of
             None \<Rightarrow> Inl FileNotFoundError
           | Some Dir \<Rightarrow> Inl IsADirectoryError
           | Some (File content) \<Rightarrow> Inr content))"

text \<open>
  The function \<^verbatim>\<open>parse_config\<close> of \<^verbatim>\<open>briefcase.config\<close> is imported by the module
  and not part of it: a parameter, which maps the content of the file, the platform and
  the output format to the global configuration and the configurations of the apps, or
  raises.
\<close>

type_synonym config_parser =
  "bytes \<Rightarrow> string \<Rightarrow> string \<Rightarrow> error + (pydict \<times> (string \<times> pydict) list)"

text \<open>
  The loop over \<^verbatim>\<open>app_configs.items()\<close>. An exception leaves the apps stored so far
  in \<^verbatim>\<open>self.apps\<close>.
\<close>

fun create_apps ::
  "(string list \<Rightarrow> string list) \<Rightarrow> klass \<Rightarrow> (string \<times> pydict) list \<Rightarrow>
   (string \<times> pyobj) list \<Rightarrow> (error + unit) \<times> (string \<times> pyobj) list" where
  "create_apps set_iter klass [] stored = (Inr (), stored)"
| "create_apps set_iter klass ((app_name, app_config) # rest) stored =
     (case create_config set_iter klass app_config (''Configuration for '' @ quote app_name) of
        Inl e \<Rightarrow> (Inl e, stored)
      | Inr app \<Rightarrow> create_apps set_iter klass rest (AList.update app_name app stored))"

text \<open>The body of the \<^verbatim>\<open>try\<close> statement.\<close>

definition parse_config_body ::
  "(string list \<Rightarrow> string list) \<Rightarrow> config_parser \<Rightarrow> filesystem \<Rightarrow> command \<Rightarrow> path \<Rightarrow>
   (error + unit) \<times> command" where
  "parse_config_body set_iter parser fs self filename =
     (case open_read fs filename of
        Inl e \<Rightarrow> (Inl e, self)
      | Inr config_file \<Rightarrow>
          (case parser config_file (platform self) (output_format self) of
             Inl e \<Rightarrow> (Inl e, self)
           | Inr (global_cfg, app_configs) \<Rightarrow>
               (case create_config set_iter (GLOBAL_CONFIG_CLASS self) global_cfg
                       ''Global configuration'' of
                  Inl e \<Rightarrow> (Inl e, self)
                | Inr g \<Rightarrow>
                    (let self1 = self\<lparr>global_config := Some g\<rparr>;
                         (r, stored) = create_apps set_iter (APP_CONFIG_CLASS self1) app_configs
                                         (apps self1)
                     in (r, self1\<lparr>apps := stored\<rparr>)))))"

text \<open>
  The handler: a \<^verbatim>\<open>FileNotFoundError\<close> raised anywhere in the body becomes the
  \<^verbatim>\<open>BriefcaseConfigError\<close>; every other exception passes.
\<close>

definition parse_config ::
  "(string list \<Rightarrow> string list) \<Rightarrow> config_parser \<Rightarrow> filesystem \<Rightarrow> command \<Rightarrow> path \<Rightarrow>
   (error + unit) \<times> command" where
  "parse_config set_iter parser fs self filename =
     (case parse_config_body set_iter parser fs self filename of
        (Inl e, self') \<Rightarrow>
          if is_FileNotFoundError e
          then (Inl (BriefcaseConfigError ''configuration file not found''), self')
          else (Inl e, self')
      | (Inr u, self') \<Rightarrow> (Inr u, self'))"


subsection \<open>Parsing the URL\<close>

text \<open>
  \<^verbatim>\<open>urllib.parse.urlparse\<close> belongs to the standard library. The model follows
  \<^verbatim>\<open>urlsplit\<close>, \<^verbatim>\<open>_splitnetloc\<close>, \<^verbatim>\<open>urlparse\<close> and
  \<^verbatim>\<open>_splitparams\<close> of CPython 3.12 on strings of 8-bit characters. Two checks of
  the network location that end in \<^verbatim>\<open>ValueError\<close> are left out: the one on the
  address between brackets and the one on characters beyond ASCII.
\<close>

definition find :: "char \<Rightarrow> string \<Rightarrow> nat option" where
  "find c s = (if c \<in> set s then Some (length (takeWhile (\<lambda>x. x \<noteq> c) s)) else None)"

definition find_from :: "char \<Rightarrow> nat \<Rightarrow> string \<Rightarrow> nat option" where
  "find_from c start s = map_option (\<lambda>i. start + i) (find c (drop start s))"

definition rfind :: "char \<Rightarrow> string \<Rightarrow> nat option" where
  "rfind c s =
     (if c \<in> set s then Some (length s - 1 - length (takeWhile (\<lambda>x. x \<noteq> c) (rev s))) else None)"

definition ascii_lowercase :: string where
  "ascii_lowercase = ''abcdefghijklmnopqrstuvwxyz''"

definition ascii_uppercase :: string where
  "ascii_uppercase = ''ABCDEFGHIJKLMNOPQRSTUVWXYZ''"

definition scheme_chars :: string where
  "scheme_chars = ascii_lowercase @ ascii_uppercase @ ''0123456789'' @ ''+-.''"

definition lower :: "string \<Rightarrow> string" where
  "lower s =
     map (\<lambda>c. case map_of (zip ascii_uppercase ascii_lowercase) c of Some l \<Rightarrow> l | None \<Rightarrow> c) s"

definition uses_params :: "string list" where
  "uses_params = [[], ''ftp'', ''hdl'', ''prospero'', ''http'', ''imap'', ''https'', ''shttp'',
     ''rtsp'', ''rtsps'', ''rtspu'', ''sip'', ''sips'', ''mms'', ''sftp'', ''tel'']"

text \<open>The characters from \<open>0x00\<close> to the space, stripped on the left.\<close>

definition WHATWG_C0_CONTROL_OR_SPACE :: "char \<Rightarrow> bool" where
  "WHATWG_C0_CONTROL_OR_SPACE c = ((of_char c :: nat) \<le> 32)"

text \<open>Tab, carriage return and line feed, removed wherever they stand.\<close>

definition UNSAFE_URL_BYTES_TO_REMOVE :: "char list" where
  "UNSAFE_URL_BYTES_TO_REMOVE = [CHR 0x09, CHR 0x0D, CHR 0x0A]"

definition splitnetloc :: "string \<Rightarrow> string \<times> string" where
  "splitnetloc url =
     (let rest = drop 2 url
      in (takeWhile (\<lambda>c. c \<notin> set ''/?#'') rest, dropWhile (\<lambda>c. c \<notin> set ''/?#'') rest))"

text \<open>The result of \<^verbatim>\<open>urlsplit\<close>: scheme, netloc, path, query, fragment.\<close>

definition urlsplit :: "string \<Rightarrow> error + (string \<times> string \<times> string \<times> string \<times> string)" where
  "urlsplit url0 =
     (let url1 = dropWhile WHATWG_C0_CONTROL_OR_SPACE url0;
          url2 = filter (\<lambda>c. c \<notin> set UNSAFE_URL_BYTES_TO_REMOVE) url1;
          (scheme, url3) =
            (case find CHR '':'' url2 of
               None \<Rightarrow> ([], url2)
             | Some i \<Rightarrow>
                 if 0 < i \<and> hd url2 \<in> set (ascii_lowercase @ ascii_uppercase)
                    \<and> (\<forall>c \<in> set (take i url2). c \<in> set scheme_chars)
                 then (lower (take i url2), drop (i + 1) url2)
                 else ([], url2));
          (netloc, url4) = (if take 2 url3 = ''//'' then splitnetloc url3 else ([], url3))
      in if (CHR ''['' \<in> set netloc \<and> CHR '']'' \<notin> set netloc)
            \<or> (CHR '']'' \<in> set netloc \<and> CHR ''['' \<notin> set netloc)
         then Inl (ValueError ''Invalid IPv6 URL'')
         else
           (let fragment = drop 1 (dropWhile (\<lambda>c. c \<noteq> CHR ''#'') url4);
                url5 = takeWhile (\<lambda>c. c \<noteq> CHR ''#'') url4;
                query = drop 1 (dropWhile (\<lambda>c. c \<noteq> CHR ''?'') url5);
                url6 = takeWhile (\<lambda>c. c \<noteq> CHR ''?'') url5
            in Inr (scheme, netloc, url6, query, fragment)))"

definition splitparams :: "string \<Rightarrow> string \<times> string" where
  "splitparams url =
     (case rfind CHR ''/'' url of
        Some j \<Rightarrow>
          (case find_from CHR '';'' j url of
             None \<Rightarrow> (url, [])
           | Some i \<Rightarrow> (take i url, drop (i + 1) url))
      | None \<Rightarrow>
          (case find CHR '';'' url of
             None \<Rightarrow> (butlast url, url)
           | Some i \<Rightarrow> (take i url, drop (i + 1) url)))"

record parse_result =
  url_scheme :: string
  url_netloc :: string
  url_path :: string
  url_params :: string
  url_query :: string
  url_fragment :: string

definition urlparse :: "string \<Rightarrow> error + parse_result" where
  "urlparse url =
     (case urlsplit url of
        Inl e \<Rightarrow> Inl e
      | Inr (scheme, netloc, url', query, fragment) \<Rightarrow>
          (let (url'', params) =
                 (if scheme \<in> set uses_params \<and> CHR '';'' \<in> set url'
                  then splitparams url' else (url', []))
           in Inr \<lparr>url_scheme = scheme, url_netloc = netloc, url_path = url'',
                    url_params = params, url_query = query, url_fragment = fragment\<rparr>))"

text \<open>Python's \<^verbatim>\<open>s.split(sep)\<close> for a separator of one character.\<close>

fun str_split :: "char \<Rightarrow> string \<Rightarrow> string list" where
  "str_split sep [] = [[]]"
| "str_split sep (c # cs) =
     (if c = sep then [] # str_split sep cs
      else (case str_split sep cs of
              [] \<Rightarrow> [[c]]
            | part # parts \<Rightarrow> (c # part) # parts))"


subsection \<open>Paths and the file system\<close>

text \<open>
  \<^verbatim>\<open>download_path / cache_name\<close> on a POSIX path, for a name without a slash:
  \<^verbatim>\<open>pathlib\<close> drops an empty component and the component \<^verbatim>\<open>.\<close>. The cache
  name never has a slash, being a part of a string split at the slashes.
\<close>

definition joinpath :: "path \<Rightarrow> string \<Rightarrow> path" where
  "joinpath p name = (if name = [] \<or> name = ''.'' then p else p @ [name])"

text \<open>The system call behind \<^verbatim>\<open>os.mkdir\<close>.\<close>

definition os_mkdir :: "filesystem \<Rightarrow> path \<Rightarrow> error + filesystem" where
  "os_mkdir fs p =
     (if lookup fs p \<noteq> None then Inl FileExistsError
      else (case lookup fs (butlast p) of
              None \<Rightarrow> Inl FileNotFoundError
            | Some (File _) \<Rightarrow> Inl NotADirectoryError
            | Some Dir \<Rightarrow> Inr (fs(p \<mapsto> Dir))))"

text \<open>
  \<^verbatim>\<open>Path.mkdir(parents=False, exist_ok=True)\<close>: the call that \<^verbatim>\<open>pathlib\<close> makes
  once the parent is there.
\<close>

definition mkdir_leaf :: "filesystem \<Rightarrow> path \<Rightarrow> error + filesystem" where
  "mkdir_leaf fs p =
     (case os_mkdir fs p of
        Inr fs' \<Rightarrow> Inr fs'
      | Inl e \<Rightarrow>
          if is_FileNotFoundError e then Inl e
          else if is_dir fs p then Inr fs
          else Inl e)"

text \<open>
  \<^verbatim>\<open>Path.mkdir(parents=True, exist_ok=True)\<close>: on \<^verbatim>\<open>FileNotFoundError\<close> the
  parent is made first, unless the path is its own parent; any other error of the system
  call is dropped when the path is a directory already.
\<close>

function mkdir :: "filesystem \<Rightarrow> path \<Rightarrow> error + filesystem" where
  "mkdir fs p =
     (case os_mkdir fs p of
        Inr fs' \<Rightarrow> Inr fs'
      | Inl e \<Rightarrow>
          if is_FileNotFoundError e then
            (if p = [] then Inl e
             else (case mkdir fs (butlast p) of
                     Inl e' \<Rightarrow> Inl e'
                   | Inr fs1 \<Rightarrow> mkdir_leaf fs1 p))
          else if is_dir fs p then Inr fs
          else Inl e)"
  by pat_completeness auto
termination
  by (relation "measure (\<lambda>(fs, p). length p)") auto

declare mkdir.simps [simp del]

text \<open>\<^verbatim>\<open>open(filename, 'wb')\<close> creates the file or empties it.\<close>

definition open_wb :: "filesystem \<Rightarrow> path \<Rightarrow> error + filesystem" where
  "open_wb fs p =
     (case lookup fs p of
        Some Dir \<Rightarrow> Inl IsADirectoryError
      | _ \<Rightarrow>
          (case lookup fs (butlast p) of
             None \<Rightarrow> Inl FileNotFoundError
           | Some (File _) \<Rightarrow> Inl NotADirectoryError
           | Some Dir \<Rightarrow> Inr (fs(p \<mapsto> File []))))"

text \<open>\<^verbatim>\<open>f.write(data)\<close> on the file opened at \<open>p\<close>.\<close>

definition file_write :: "filesystem \<Rightarrow> path \<Rightarrow> bytes \<Rightarrow> filesystem" where
  "file_write fs p data =
     (case fs p of
        Some (File old) \<Rightarrow> fs(p \<mapsto> File (old @ data))
      | _ \<Rightarrow> fs)"

subsection \<open>Numbers and their text\<close>

text \<open>
  \<^verbatim>\<open>int(s)\<close> for a string of 8-bit characters: white space around, a sign, decimal
  digits, single underscores between digits. \<open>None\<close> stands for \<^verbatim>\<open>ValueError\<close>.
  The limit that recent interpreters put on the number of digits is left out.
\<close>

definition is_space :: "char \<Rightarrow> bool" where
  "is_space c = (c \<in> set [CHR 0x09, CHR 0x0A, CHR 0x0B, CHR 0x0C, CHR 0x0D, CHR 0x20,
                           CHR 0x85, CHR 0xA0])"

definition strip :: "string \<Rightarrow> string" where
  "strip s = rev (dropWhile is_space (rev (dropWhile is_space s)))"

definition is_digit :: "char \<Rightarrow> bool" where
  "is_digit c = (c \<in> set ''0123456789'')"

definition digit_val :: "char \<Rightarrow> nat" where
  "digit_val c = length (takeWhile (\<lambda>d. d \<noteq> c) ''0123456789'')"

fun digits_val :: "nat \<Rightarrow> string \<Rightarrow> nat option" where
  "digits_val acc [] = Some acc"
| "digits_val acc (c # cs) =
     (if is_digit c then digits_val (10 * acc + digit_val c) cs
      else if c = CHR ''_'' \<and> cs \<noteq> [] \<and> is_digit (hd cs) then digits_val acc cs
      else None)"

definition py_nat :: "string \<Rightarrow> nat option" where
  "py_nat s = (case s of [] \<Rightarrow> None | c # cs \<Rightarrow> if is_digit c then digits_val 0 s else None)"

definition py_int :: "string \<Rightarrow> int option" where
  "py_int s =
     (case strip s of
        [] \<Rightarrow> None
      | c # cs \<Rightarrow>
          if c = CHR ''-'' then map_option (\<lambda>n. - int n) (py_nat cs)
          else if c = CHR ''+'' then map_option int (py_nat cs)
          else map_option int (py_nat (c # cs)))"

text \<open>\<^verbatim>\<open>str(n)\<close> for an integer.\<close>

fun str_nat :: "nat \<Rightarrow> string" where
  "str_nat n =
     (if n < 10 then [''0123456789'' ! n]
      else str_nat (n div 10) @ [''0123456789'' ! (n mod 10)])"

declare str_nat.simps [simp del]

definition str_int :: "int \<Rightarrow> string" where
  "str_int i = (if i < 0 then ''-'' @ str_nat (nat (- i)) else str_nat (nat i))"

text \<open>
  \<^verbatim>\<open>int(a / b)\<close> for integers \<open>a\<close> and \<open>b \<noteq> 0\<close>: the quotient rounded towards
  zero. Python computes \<^verbatim>\<open>a / b\<close> as a double; the exact quotient stands for it here,
  and the two agree as long as \<open>\<bar>a\<bar> + \<bar>b\<bar> < 2 ^ 53\<close>.
\<close>

definition int_truediv :: "int \<Rightarrow> int \<Rightarrow> int" where
  "int_truediv a b = sgn a * sgn b * (\<bar>a\<bar> div \<bar>b\<bar>)"

subsection \<open>Standard output\<close>

text \<open>
  The text printed holds one character beyond ASCII, the full block \<^verbatim>\<open>U+2588\<close> of
  the progress bar; every other character is an 8-bit one.
\<close>

datatype glyph = Ch char | FULL_BLOCK

definition text_of :: "string \<Rightarrow> glyph list" where
  "text_of s = map Ch s"

definition newline :: "glyph list" where
  "newline = [Ch (CHR 0x0A)]"

text \<open>
  The line that \<^verbatim>\<open>print\<close> receives: a carriage return, \<open>done\<close> full blocks,
  \<open>50 - done\<close> dots, a space, \<open>2 * done\<close> and a percent sign. A string times a
  negative number is the empty string.
\<close>

definition progress_bar :: "int \<Rightarrow> glyph list" where
  "progress_bar done = replicate (nat done) FULL_BLOCK @ replicate (nat (50 - done)) (Ch CHR ''.'')"

definition progress_line :: "int \<Rightarrow> glyph list" where
  "progress_line done =
     [Ch (CHR 0x0D)] @ progress_bar done @ text_of ('' '' @ str_int (2 * done) @ ''%'')"

subsection \<open>download_url\<close>

text \<open>
  What \<^verbatim>\<open>download_url\<close> reads of the response: \<^verbatim>\<open>status_code\<close>,
  \<^verbatim>\<open>headers.get('content-length')\<close>, \<^verbatim>\<open>content\<close>, and the chunks that
  \<^verbatim>\<open>iter_content(chunk_size)\<close> yields.
\<close>

record response =
  status_code :: int
  content_length :: "string option"
  content :: bytes
  iter_content :: "nat \<Rightarrow> bytes list"

text \<open>\<^verbatim>\<open>self.requests.get(url, stream=True)\<close>: the client is handed to the command.\<close>

type_synonym http_client = "string \<Rightarrow> error + response"

text \<open>The state: the file system, what was printed, and the URLs requested.\<close>

record world =
  files :: filesystem
  stdout :: "glyph list"
  requests_sent :: "string list"

text \<open>The loop over \<^verbatim>\<open>response.iter_content(chunk_size=1024 * 1024)\<close>.\<close>

fun write_chunks :: "path \<Rightarrow> int \<Rightarrow> bytes list \<Rightarrow> int \<Rightarrow> world \<Rightarrow> (error + unit) \<times> world" where
  "write_chunks filename total_bytes [] downloaded w = (Inr (), w)"
| "write_chunks filename total_bytes (data # rest) downloaded w =
     (let downloaded' = downloaded + int (length data);
          w1 = w\<lparr>files := file_write (files w) filename data\<rparr>
      in if total_bytes = 0 then (Inl ZeroDivisionError, w1)
         else (let done = int_truediv (50 * downloaded') total_bytes;
                   w2 = w1\<lparr>stdout := stdout w1 @ progress_line done\<rparr>
               in write_chunks filename total_bytes rest downloaded' w2))"

text \<open>The body of \<^verbatim>\<open>with open(filename, 'wb') as f\<close>.\<close>

definition save_body :: "response \<Rightarrow> path \<Rightarrow> world \<Rightarrow> (error + unit) \<times> world" where
  "save_body response filename w =
     (case content_length response of
        None \<Rightarrow> (Inr (), w\<lparr>files := file_write (files w) filename (content response)\<rparr>)
      | Some header \<Rightarrow>
          (case py_int header of
             None \<Rightarrow> (Inl (ValueError ''invalid literal for int() with base 10''), w)
           | Some total_bytes \<Rightarrow>
               write_chunks filename total_bytes (iter_content response (1024 * 1024)) 0 w))"

text \<open>\<^verbatim>\<open>cache_name = urlparse(url).path.split('/')[-1]\<close>\<close>

definition url_cache_name :: "string \<Rightarrow> error + string" where
  "url_cache_name url =
     (case urlparse url of
        Inl e \<Rightarrow> Inl e
      | Inr parsed \<Rightarrow> Inr (last (str_split CHR ''/'' (url_path parsed))))"

text \<open>
  The cache name as the specification words it: the final segment of the path of the URL,
  the path being what \<^verbatim>\<open>urlsplit\<close> leaves of the URL once the scheme, the network
  location, the query and the fragment are taken off.
\<close>

definition spec_cache_name :: "string \<Rightarrow> error + string" where
  "spec_cache_name url =
     (case urlsplit url of
        Inl e \<Rightarrow> Inl e
      | Inr (scheme, netloc, upath, query, fragment) \<Rightarrow> Inr (last (str_split CHR ''/'' upath)))"

definition download_url :: "http_client \<Rightarrow> world \<Rightarrow> string \<Rightarrow> path \<Rightarrow> (error + path) \<times> world" where
  "download_url requests_get w url download_path =
     (case url_cache_name url of
        Inl e \<Rightarrow> (Inl e, w)
      | Inr cache_name \<Rightarrow>
          (case mkdir (files w) download_path of
             Inl e \<Rightarrow> (Inl e, w)
           | Inr fs1 \<Rightarrow>
               (let w1 = w\<lparr>files := fs1\<rparr>;
                    filename = joinpath download_path cache_name
                in if \<not> exists_path (files w1) filename then
                     (let w2 = w1\<lparr>requests_sent := requests_sent w1 @ [url]\<rparr> in
                      case requests_get url of
                        Inl e \<Rightarrow> (Inl e, w2)
                      | Inr response \<Rightarrow>
                          if status_code response = 404 then
                            (Inl (MissingNetworkResourceError url), w2)
                          else if status_code response \<noteq> 200 then
                            (Inl (BadNetworkResourceError url (status_code response)), w2)
                          else
                            (case open_wb (files w2) filename of
                               Inl e \<Rightarrow> (Inl e, w2)
                             | Inr fs3 \<Rightarrow>
                                 (case save_body response filename (w2\<lparr>files := fs3\<rparr>) of
                                    (Inl e, w4) \<Rightarrow> (Inl e, w4)
                                  | (Inr u, w4) \<Rightarrow>
                                      (Inr filename, w4\<lparr>stdout := stdout w4 @ newline\<rparr>))))
                   else
                     (Inr filename,
                      w1\<lparr>stdout := stdout w1 @ text_of (cache_name @ '' already downloaded'')
                                      @ newline\<rparr>))))"


subsection \<open>Example classes\<close>

text \<open>
  Concrete classes on which the theorems below are evaluated.
  \<^verbatim>\<open>
  class Pair:
      def __init__(self, a, b, **kwargs):
          self.a = a; self.b = b
          for k, v in kwargs.items(): setattr(self, k, v)

  class Named:
      def __init__(self, name):
          self.name = name

  class Checked:
      def __init__(self, name):
          if not isinstance(name, str): raise TypeError('name must be a string')
          if name == '': raise ValueError('name is empty')
          self.name = name
  \<close>
\<close>

definition self_param :: param where
  "self_param = \<lparr>pname = ''self'', pkind = POSITIONAL_OR_KEYWORD, pdefault = None\<rparr>"

definition required_param :: "string \<Rightarrow> param" where
  "required_param n = \<lparr>pname = n, pkind = POSITIONAL_OR_KEYWORD, pdefault = None\<rparr>"

definition kwargs_param :: param where
  "kwargs_param = \<lparr>pname = ''kwargs'', pkind = VAR_KEYWORD, pdefault = None\<rparr>"

definition store_all :: "bound_args \<Rightarrow> error + pyobj" where
  "store_all b = Inr (named b @ var_keyword b)"

definition Pair_class :: klass where
  "Pair_class =
     \<lparr>init_params = [self_param, required_param ''a'', required_param ''b'', kwargs_param],
      init_body = store_all\<rparr>"

definition Named_class :: klass where
  "Named_class = \<lparr>init_params = [self_param, required_param ''name''], init_body = store_all\<rparr>"

definition checked_body :: "bound_args \<Rightarrow> error + pyobj" where
  "checked_body b =
     (case map_of (named b) ''name'' of
        Some (StrVal s) \<Rightarrow> if s = [] then Inl (ValueError ''name is empty'') else Inr (named b)
      | _ \<Rightarrow> Inl (TypeError ''name must be a string''))"

definition Checked_class :: klass where
  "Checked_class =
     \<lparr>init_params = [self_param, required_param ''name''], init_body = checked_body\<rparr>"

text \<open>
  Further classes, for the cases in which a complete configuration is not enough and for
  constructors whose parameters do not have the conventional names.
  \<^verbatim>\<open>
  class Titled:
      def __init__(self, name):
          self.title = name

  class Defaulted:
      def __init__(self, a=1, /, **kwargs):
          self.a = a

  class Bare:
      def __init__():
          pass

  class Options:
      def __init__(self, a, *args, **options):
          self.a = a
          for k, v in options.items(): setattr(self, k, v)

  class This:
      def __init__(this, a):
          this.a = a

  class Keyed:
      def __init__(self, kwargs):
          self.kwargs = kwargs
  \<close>
\<close>

definition titled_body :: "bound_args \<Rightarrow> error + pyobj" where
  "titled_body b =
     (case map_of (named b) ''name'' of
        Some v \<Rightarrow> Inr [(''title'', v)]
      | None \<Rightarrow> Inr [])"

definition Titled_class :: klass where
  "Titled_class = \<lparr>init_params = [self_param, required_param ''name''], init_body = titled_body\<rparr>"

definition Defaulted_class :: klass where
  "Defaulted_class =
     \<lparr>init_params = [\<lparr>pname = ''self'', pkind = POSITIONAL_ONLY, pdefault = None\<rparr>,
                      \<lparr>pname = ''a'', pkind = POSITIONAL_ONLY, pdefault = Some (IntVal 1)\<rparr>,
                      kwargs_param],
      init_body = (\<lambda>b. Inr (named b))\<rparr>"

definition Bare_class :: klass where
  "Bare_class = \<lparr>init_params = [], init_body = store_all\<rparr>"

definition Options_class :: klass where
  "Options_class =
     \<lparr>init_params = [self_param, required_param ''a'',
                      \<lparr>pname = ''args'', pkind = VAR_POSITIONAL, pdefault = None\<rparr>,
                      \<lparr>pname = ''options'', pkind = VAR_KEYWORD, pdefault = None\<rparr>],
      init_body = store_all\<rparr>"

definition This_class :: klass where
  "This_class =
     \<lparr>init_params = [required_param ''this'', required_param ''a''], init_body = store_all\<rparr>"

definition Keyed_class :: klass where
  "Keyed_class =
     \<lparr>init_params = [self_param, required_param ''kwargs''], init_body = store_all\<rparr>"

subsection \<open>Example commands, worlds and responses\<close>

text \<open>
  A command for the platform \<^verbatim>\<open>macOS\<close> and the format \<^verbatim>\<open>app\<close>, and a reader of
  the configuration that rejects every file.
\<close>

definition example_command :: command where
  "example_command =
     \<lparr>platform = ''macOS'', output_format = ''app'', global_config = None, apps = [],
      GLOBAL_CONFIG_CLASS = Pair_class, APP_CONFIG_CLASS = Named_class\<rparr>"

definition rejecting_parser :: config_parser where
  "rejecting_parser config_file plat fmt = Inl (ValueError ''Invalid pyproject.toml'')"

text \<open>
  A reader that looks for a second file, named in the configuration, and does not find
  it.
\<close>

definition including_parser :: config_parser where
  "including_parser config_file plat fmt = Inl FileNotFoundError"

text \<open>
  A world with nothing in it, and one whose cache holds the file already. A client that
  answers every request with the same response.
\<close>

definition empty_world :: world where
  "empty_world = \<lparr>files = Map.empty, stdout = [], requests_sent = []\<rparr>"

definition cached_world :: world where
  "cached_world =
     \<lparr>files = [[''cache''] \<mapsto> Dir, [''cache'', ''python.tar.gz''] \<mapsto> File ''abc''],
      stdout = [], requests_sent = []\<rparr>"

definition serve :: "response \<Rightarrow> http_client" where
  "serve r url = Inr r"

definition plain_response :: "int \<Rightarrow> response" where
  "plain_response s =
     \<lparr>status_code = s, content_length = None, content = ''abcd'',
      iter_content = (\<lambda>chunk_size. [''abcd''])\<rparr>"

definition sized_response :: "string \<Rightarrow> bytes list \<Rightarrow> response" where
  "sized_response header chunks =
     \<lparr>status_code = 200, content_length = Some header, content = concat chunks,
      iter_content = (\<lambda>chunk_size. chunks)\<rparr>"

definition example_url :: string where
  "example_url = ''https://example.com/files/python.tar.gz?v=1#top''"

definition example_dir_url :: string where
  "example_dir_url = ''https://example.com/files/''"


text \<open>A URL whose last segment carries a parameter.\<close>

definition params_url :: string where
  "params_url = ''https://example.com/files/py.tar.gz;type=a?q#f''"

subsection \<open>Notions used in the statements\<close>

text \<open>
  A constructor signature that follows the conventions: the names of the parameters are
  distinct, as Python requires, the first parameter is \<^verbatim>\<open>self\<close>, there is no
  \<^verbatim>\<open>*args\<close>, and a parameter is the catch-all of the keywords exactly when its
  name is \<^verbatim>\<open>kwargs\<close>.
\<close>

definition conventional_signature :: "param list \<Rightarrow> bool" where
  "conventional_signature ps =
     (case ps of
        [] \<Rightarrow> False
      | r # qs \<Rightarrow>
          pname r = ''self'' \<and> distinct (map pname ps) \<and>
          (\<forall>p \<in> set qs. pkind p \<noteq> VAR_POSITIONAL
                         \<and> ((pkind p = VAR_KEYWORD) = (pname p = ''kwargs''))))"

text \<open>The file system \<open>fs'\<close> is \<open>fs\<close> with directories added where nothing was.\<close>

definition adds_dirs :: "filesystem \<Rightarrow> filesystem \<Rightarrow> bool" where
  "adds_dirs fs fs' = (\<forall>q. fs' q = fs q \<or> (fs q = None \<and> fs' q = Some Dir))"

text \<open>
  The values of \<^verbatim>\<open>downloaded\<close> after each chunk: the running totals of the lengths
  of the chunks, starting from \<open>acc\<close>.
\<close>

fun running_totals :: "int \<Rightarrow> bytes list \<Rightarrow> int list" where
  "running_totals acc [] = []"
| "running_totals acc (data # rest) =
     (acc + int (length data)) # running_totals (acc + int (length data)) rest"


section \<open>Properties of create_config\<close>

lemmas construct_defs = construct_def takes_receiver_def after_receiver_def
  receiver_keyword_def keyword_names_def has_var_keyword_def value_params_def unbound_def
  bind_value_def bind_args_def required_args_def missing_args_def create_config_def quote_def

lemmas example_class_defs = self_param_def required_param_def kwargs_param_def store_all_def
  Pair_class_def Named_class_def checked_body_def Checked_class_def

text \<open>
  For a constructor with a conventional signature, the test on the names
  \<^verbatim>\<open>self\<close> and \<^verbatim>\<open>kwargs\<close> selects the parameters that the test on the kinds
  selects.
\<close>

lemma missing_args_conventional:
  assumes "conventional_signature (init_params klass)"
  shows "set (missing_args klass config) = set (spec_missing klass config)"
proof (cases "init_params klass")
  case Nil
  with assms show ?thesis by (simp add: conventional_signature_def)
next
  case (Cons r qs)
  note ps = Cons
  from assms ps have r: "pname r = ''self''"
    and names: "pname r \<notin> pname ` set qs"
    and kinds: "\<forall>p \<in> set qs. pkind p \<noteq> VAR_POSITIONAL
                         \<and> ((pkind p = VAR_KEYWORD) = (pname p = ''kwargs''))"
    by (auto simp: conventional_signature_def)
  from r names have "\<forall>p \<in> set qs. pname p \<noteq> ''self''"
    by (metis imageI)
  with kinds
  have qs: "\<forall>p \<in> set qs. pname p \<noteq> ''self'' \<and> pkind p \<noteq> VAR_POSITIONAL
                         \<and> ((pkind p = VAR_KEYWORD) = (pname p = ''kwargs''))"
    by blast
  have "(pdefault p = None \<and> pname p \<notin> {''self'', ''kwargs''})
      = (pdefault p = None \<and> pkind p \<in> {POSITIONAL_ONLY, POSITIONAL_OR_KEYWORD, KEYWORD_ONLY})"
    if "p \<in> set qs" for p
    using qs that by (cases "pkind p") auto
  then have "filter (\<lambda>p. pdefault p = None \<and> pname p \<notin> {''self'', ''kwargs''}) qs
      = filter (\<lambda>p. pdefault p = None
                    \<and> pkind p \<in> {POSITIONAL_ONLY, POSITIONAL_OR_KEYWORD, KEYWORD_ONLY}) qs"
    by (intro filter_cong refl)
  with ps r show ?thesis
    by (simp add: missing_args_def required_args_def spec_missing_def spec_required_args_def)
qed

text \<open>
  Claim C1, as the code has it. Let the constructor have a conventional signature:
  distinct names, \<^verbatim>\<open>self\<close> first, no \<^verbatim>\<open>*args\<close>, and the name
  \<^verbatim>\<open>kwargs\<close> for the catch-all of the keywords and for it alone. When the call \<^verbatim>\<open>klass(**config)\<close> raises a
  \<^verbatim>\<open>TypeError\<close>, \<^verbatim>\<open>create_config\<close> raises \<^verbatim>\<open>BriefcaseConfigError\<close> with
  the message \<^verbatim>\<open><msg> is incomplete (missing <names>)\<close>, where the names are quoted
  and joined by a comma and a space. Each name is listed once, and the names listed are
  exactly the names of the parameters after \<^verbatim>\<open>self\<close> that have no default, are no
  catch-all, and are no key of \<^verbatim>\<open>config\<close>; so no key of \<^verbatim>\<open>config\<close> is
  listed. Their order is the order in which Python iterates over the set, whatever it is:
  the theorem holds for every order \<open>set_iter\<close> that permutes its argument.
\<close>

theorem create_config_incomplete:
  assumes "construct klass config = Inl e"
    and "is_TypeError e"
    and "\<And>xs. mset (set_iter xs) = mset xs"
    and "conventional_signature (init_params klass)"
  shows "\<exists>names.
      create_config set_iter klass config msg =
        Inl (BriefcaseConfigError
               (msg @ '' is incomplete (missing '' @ join '', '' (map quote names) @ '')''))
    \<and> distinct names
    \<and> set names =
        {n. (\<exists>p \<in> set (tl (init_params klass)). pname p = n \<and> pdefault p = None
               \<and> pkind p \<noteq> VAR_POSITIONAL \<and> pkind p \<noteq> VAR_KEYWORD)
            \<and> n \<notin> fst ` set config}"
proof -
  let ?names = "set_iter (missing_args klass config)"
  have perm: "mset ?names = mset (missing_args klass config)"
    by (rule assms(3))
  have "distinct (missing_args klass config)"
    by (simp add: missing_args_def required_args_def)
  with perm have "distinct ?names"
    by (metis mset_eq_imp_distinct_iff)
  moreover have "set ?names = set (missing_args klass config)"
    using perm by (rule mset_eq_setD)
  moreover have "set (spec_missing klass config) =
        {n. (\<exists>p \<in> set (tl (init_params klass)). pname p = n \<and> pdefault p = None
               \<and> pkind p \<noteq> VAR_POSITIONAL \<and> pkind p \<noteq> VAR_KEYWORD)
            \<and> n \<notin> fst ` set config}"
  proof -
    have "(pkind p \<in> {POSITIONAL_ONLY, POSITIONAL_OR_KEYWORD, KEYWORD_ONLY})
        = (pkind p \<noteq> VAR_POSITIONAL \<and> pkind p \<noteq> VAR_KEYWORD)" for p
      by (cases "pkind p") auto
    then show ?thesis
      by (auto simp: spec_missing_def spec_required_args_def)
  qed
  moreover have "create_config set_iter klass config msg =
      Inl (BriefcaseConfigError
             (msg @ '' is incomplete (missing '' @ join '', '' (map quote ?names) @ '')''))"
    using assms(1,2) by (simp add: create_config_def)
  ultimately show ?thesis
    using missing_args_conventional [OF assms(4), of config] by blast
qed

text \<open>
  The theorem at \<^verbatim>\<open>Pair\<close> with the empty configuration and a set that yields its
  elements in the reverse order: the call raises \<^verbatim>\<open>TypeError\<close>, the names listed
  are \<^verbatim>\<open>a\<close> and \<^verbatim>\<open>b\<close>, and the message is
  \<^verbatim>\<open>Global configuration is incomplete (missing 'b', 'a')\<close>.
\<close>

theorem create_config_incomplete_witness:
  "construct Pair_class [] = Inl (TypeError ''__init__() missing required arguments'') \<and>
   is_TypeError (TypeError ''__init__() missing required arguments'') \<and>
   (\<forall>xs :: string list. mset (rev xs) = mset xs) \<and>
   conventional_signature (init_params Pair_class) \<and>
   (\<exists>names. create_config rev Pair_class [] ''Global configuration'' =
        Inl (BriefcaseConfigError
               (''Global configuration'' @ '' is incomplete (missing ''
                  @ join '', '' (map quote names) @ '')''))
      \<and> distinct names \<and> set names = {''a'', ''b''}) \<and>
   create_config rev Pair_class [] ''Global configuration'' =
     Inl (BriefcaseConfigError
            (''Global configuration is incomplete (missing ''
               @ quote ''b'' @ '', '' @ quote ''a'' @ '')''))"
proof -
  have c: "construct Pair_class [] = Inl (TypeError ''__init__() missing required arguments'')"
    by (simp add: construct_defs example_class_defs)
  have t: "is_TypeError (TypeError ''__init__() missing required arguments'')"
    by simp
  have p: "\<And>xs :: string list. mset (rev xs) = mset xs"
    by simp
  have v: "conventional_signature (init_params Pair_class)"
    by (simp add: conventional_signature_def example_class_defs)
  have s: "{n. (\<exists>p \<in> set (tl (init_params Pair_class)). pname p = n \<and> pdefault p = None
               \<and> pkind p \<noteq> VAR_POSITIONAL \<and> pkind p \<noteq> VAR_KEYWORD)
            \<and> n \<notin> fst ` set []} = {''a'', ''b''}"
    by (auto simp: example_class_defs)
  have m: "create_config rev Pair_class [] ''Global configuration'' =
     Inl (BriefcaseConfigError
            (''Global configuration is incomplete (missing ''
               @ quote ''b'' @ '', '' @ quote ''a'' @ '')''))"
    by (simp add: construct_defs example_class_defs)
  from create_config_incomplete [OF c t p v, of "''Global configuration''"]
  have "\<exists>names. create_config rev Pair_class [] ''Global configuration'' =
        Inl (BriefcaseConfigError
               (''Global configuration'' @ '' is incomplete (missing ''
                  @ join '', '' (map quote names) @ '')''))
      \<and> distinct names \<and> set names = {''a'', ''b''}"
    unfolding s .
  with c t p v m show ?thesis by blast
qed

text \<open>
  Claim C1 as it is stated fails on the order, and on the parameters that are left out.
  \<^verbatim>\<open>Pair\<close> declares \<^verbatim>\<open>a\<close> before \<^verbatim>\<open>b\<close> and the empty configuration
  misses both. A run in which the set yields \<^verbatim>\<open>b\<close> first raises the message
  \<^verbatim>\<open>m is incomplete (missing 'b', 'a')\<close>, which is not the message in the order of
  declaration. \<^verbatim>\<open>Options\<close> has the one required parameter \<^verbatim>\<open>a\<close>; its
  catch-all parameters are named \<^verbatim>\<open>args\<close> and \<^verbatim>\<open>options\<close>, and the message
  for the empty configuration lists them with \<^verbatim>\<open>a\<close>. \<^verbatim>\<open>This\<close> names its
  receiver \<^verbatim>\<open>this\<close>, and the message lists it with \<^verbatim>\<open>a\<close>.
  \<^verbatim>\<open>Keyed\<close> has a required parameter named \<^verbatim>\<open>kwargs\<close>, which the message
  for the empty configuration does not list.
\<close>

theorem create_config_order_counterexample:
  "construct Pair_class [] = Inl (TypeError ''__init__() missing required arguments'') \<and>
   create_config rev Pair_class [] ''m''
     = Inl (BriefcaseConfigError
              (''m is incomplete (missing '' @ quote ''b'' @ '', '' @ quote ''a'' @ '')'')) \<and>
   spec_incomplete_message ''m'' Pair_class []
     = ''m is incomplete (missing '' @ quote ''a'' @ '', '' @ quote ''b'' @ '')'' \<and>
   create_config rev Pair_class [] ''m''
     \<noteq> Inl (BriefcaseConfigError (spec_incomplete_message ''m'' Pair_class [])) \<and>
   construct Options_class [] = Inl (TypeError ''__init__() missing required arguments'') \<and>
   create_config id Options_class [] ''m''
     = Inl (BriefcaseConfigError
              (''m is incomplete (missing '' @ quote ''a'' @ '', '' @ quote ''args'' @ '', ''
                 @ quote ''options'' @ '')'')) \<and>
   spec_incomplete_message ''m'' Options_class []
     = ''m is incomplete (missing '' @ quote ''a'' @ '')'' \<and>
   create_config id Options_class [] ''m''
     \<noteq> Inl (BriefcaseConfigError (spec_incomplete_message ''m'' Options_class [])) \<and>
   construct This_class [] = Inl (TypeError ''__init__() missing required arguments'') \<and>
   create_config id This_class [] ''m''
     = Inl (BriefcaseConfigError
              (''m is incomplete (missing '' @ quote ''this'' @ '', '' @ quote ''a'' @ '')'')) \<and>
   spec_incomplete_message ''m'' This_class []
     = ''m is incomplete (missing '' @ quote ''a'' @ '')'' \<and>
   create_config id This_class [] ''m''
     \<noteq> Inl (BriefcaseConfigError (spec_incomplete_message ''m'' This_class [])) \<and>
   construct Keyed_class [] = Inl (TypeError ''__init__() missing required arguments'') \<and>
   create_config id Keyed_class [] ''m''
     = Inl (BriefcaseConfigError ''m is incomplete (missing )'') \<and>
   spec_incomplete_message ''m'' Keyed_class []
     = ''m is incomplete (missing '' @ quote ''kwargs'' @ '')'' \<and>
   create_config id Keyed_class [] ''m''
     \<noteq> Inl (BriefcaseConfigError (spec_incomplete_message ''m'' Keyed_class []))"
  by (simp add: construct_defs example_class_defs Options_class_def This_class_def
        Keyed_class_def spec_incomplete_message_def spec_missing_def spec_required_args_def)

text \<open>
  A key that the call accepts and that names a parameter of the constructor names one that
  takes keywords; the receiver is none of them.
\<close>

lemma after_receiver_subset: "set (after_receiver ps) \<subseteq> set ps"
  by (auto simp: after_receiver_def split: list.splits if_splits)

lemma value_params_subset: "set (value_params ps) \<subseteq> set ps"
  using after_receiver_subset [of ps] by (auto simp: value_params_def)

lemma keyword_names_param:
  assumes "k \<in> set (keyword_names ps)"
  obtains q where "q \<in> set (after_receiver ps)" "pname q = k"
    "pkind q = POSITIONAL_OR_KEYWORD \<or> pkind q = KEYWORD_ONLY"
  using assms by (auto simp: keyword_names_def)

lemma same_name_same_param:
  assumes "distinct (map pname ps)" "p \<in> set ps" "q \<in> set ps" "pname p = pname q"
  shows "p = q"
  using assms by (meson distinct_map inj_on_def)

lemma receiver_not_keyword:
  assumes "distinct (map pname ps)" and "receiver_keyword ps = Some k"
  shows "k \<in> set (map pname ps) \<and> k \<notin> set (keyword_names ps)"
proof -
  from assms(2) obtain r qs where ps: "ps = r # qs" and r: "pname r = k"
    and kind: "pkind r = POSITIONAL_OR_KEYWORD"
    by (auto simp: receiver_keyword_def split: list.splits if_splits)
  from ps kind have "after_receiver ps = qs" by (simp add: after_receiver_def)
  then have "set (keyword_names ps) \<subseteq> pname ` set qs"
    by (auto simp: keyword_names_def)
  moreover from assms(1) ps r have "k \<notin> pname ` set qs" by auto
  ultimately show ?thesis using ps r by auto
qed

lemma accepted_key_kind:
  assumes names: "distinct (map pname ps)"
    and accepted: "\<forall>k \<in> set (map fst config).
        k \<in> set (keyword_names ps) \<or> (has_var_keyword ps \<and> k \<notin> set (map pname ps))"
    and p: "p \<in> set (value_params ps)" and key: "pname p \<in> set (map fst config)"
  shows "pkind p \<noteq> POSITIONAL_ONLY"
proof -
  from p value_params_subset have pin: "p \<in> set ps" by blast
  from accepted key
  have "pname p \<in> set (keyword_names ps)
        \<or> (has_var_keyword ps \<and> pname p \<notin> set (map pname ps))"
    by blast
  moreover from pin have "pname p \<in> set (map pname ps)" by simp
  ultimately have "pname p \<in> set (keyword_names ps)" by blast
  then obtain q where q: "q \<in> set (after_receiver ps)" "pname q = pname p"
    "pkind q = POSITIONAL_OR_KEYWORD \<or> pkind q = KEYWORD_ONLY"
    by (rule keyword_names_param)
  from q(1) after_receiver_subset have "q \<in> set ps" by blast
  from same_name_same_param [OF names this pin q(2)] q(3) show ?thesis by auto
qed

text \<open>
  Claim C2, as the code has it. Let the parameters of \<^verbatim>\<open>__init__\<close> have distinct
  names, as Python requires, and let the first one take the new object. Let every key of
  \<^verbatim>\<open>config\<close> name a parameter after the receiver that accepts keywords or, when the
  class has a \<^verbatim>\<open>**kwargs\<close> parameter, no parameter at all. Let every parameter
  without a default that needs a value be a key of \<^verbatim>\<open>config\<close>. Let the body of
  \<^verbatim>\<open>__init__\<close> return, with an object that holds every named argument under the
  name of its parameter. Then \<^verbatim>\<open>create_config\<close> returns this object, and for every
  declared parameter that is a key of \<^verbatim>\<open>config\<close> the attribute of that name has
  the value that \<^verbatim>\<open>config\<close> gives it.
\<close>

theorem create_config_complete:
  assumes names: "distinct (map pname (init_params klass))"
    and recv: "takes_receiver (init_params klass)"
    and accepted: "\<forall>k \<in> set (map fst config).
        k \<in> set (keyword_names (init_params klass))
        \<or> (has_var_keyword (init_params klass) \<and> k \<notin> set (map pname (init_params klass)))"
    and required: "\<forall>p \<in> set (value_params (init_params klass)).
        pdefault p = None \<longrightarrow> pname p \<in> set (map fst config)"
    and body: "init_body klass (bind_args (init_params klass) config) = Inr obj"
    and stores: "\<forall>(k, v) \<in> set (named (bind_args (init_params klass) config)).
        map_of obj k = Some v"
  shows "create_config set_iter klass config msg = Inr obj \<and>
         (\<forall>p \<in> set (value_params (init_params klass)). \<forall>v.
            map_of config (pname p) = Some v \<longrightarrow> map_of obj (pname p) = Some v)"
proof -
  let ?ps = "init_params klass"
  have norepeat: "\<forall>k \<in> set (map fst config). receiver_keyword ?ps \<noteq> Some k"
  proof
    fix k assume k: "k \<in> set (map fst config)"
    show "receiver_keyword ?ps \<noteq> Some k"
    proof
      assume "receiver_keyword ?ps = Some k"
      from receiver_not_keyword [OF names this] accepted k show False by auto
    qed
  qed
  have extra: "\<not> (\<not> has_var_keyword ?ps \<and> (\<exists>k \<in> set (map fst config). k \<notin> set (keyword_names ?ps)))"
    using accepted by blast
  have "unbound ?ps config = []"
    using required accepted_key_kind [OF names accepted]
    by (auto simp: unbound_def filter_empty_conv)
  with recv norepeat extra body have "construct klass config = Inr obj"
    by (simp add: construct_def Let_def)
  then have "create_config set_iter klass config msg = Inr obj"
    by (simp add: create_config_def)
  moreover have "map_of obj (pname p) = Some v"
    if p: "p \<in> set (value_params ?ps)" and v: "map_of config (pname p) = Some v" for p v
  proof -
    from v have "pname p \<in> set (map fst config)"
      by (metis map_of_eq_None_iff option.distinct(1) set_map)
    from accepted_key_kind [OF names accepted p this] v
    have "bind_value config p = (pname p, v)"
      by (simp add: bind_value_def)
    with p have "(pname p, v) \<in> set (named (bind_args ?ps config))"
      by (force simp: bind_args_def)
    with stores show ?thesis by auto
  qed
  ultimately show ?thesis by blast
qed

text \<open>
  The theorem at \<^verbatim>\<open>Pair\<close> with \<^verbatim>\<open>{'a': 'x', 'b': 1, 'c': 2}\<close>: every
  hypothesis holds, the object has the three attributes, and \<^verbatim>\<open>a\<close> and \<^verbatim>\<open>b\<close>
  have the values of the configuration.
\<close>

theorem create_config_complete_witness:
  "distinct (map pname (init_params Pair_class)) \<and>
   takes_receiver (init_params Pair_class) \<and>
   init_body Pair_class
       (bind_args (init_params Pair_class) [(''a'', StrVal ''x''), (''b'', IntVal 1), (''c'', IntVal 2)])
     = Inr [(''a'', StrVal ''x''), (''b'', IntVal 1), (''c'', IntVal 2)] \<and>
   create_config rev Pair_class [(''a'', StrVal ''x''), (''b'', IntVal 1), (''c'', IntVal 2)] ''m''
     = Inr [(''a'', StrVal ''x''), (''b'', IntVal 1), (''c'', IntVal 2)] \<and>
   map_of [(''a'', StrVal ''x''), (''b'', IntVal 1), (''c'', IntVal 2)] ''a'' = Some (StrVal ''x'') \<and>
   map_of [(''a'', StrVal ''x''), (''b'', IntVal 1), (''c'', IntVal 2)] ''b'' = Some (IntVal 1)"
proof -
  let ?F = "[(''a'', StrVal ''x''), (''b'', IntVal 1), (''c'', IntVal 2)]"
  let ?ps = "init_params Pair_class"
  have names: "distinct (map pname ?ps)"
    by (simp add: example_class_defs)
  have recv: "takes_receiver ?ps"
    by (simp add: construct_defs example_class_defs)
  have accepted: "\<forall>k \<in> set (map fst ?F).
        k \<in> set (keyword_names ?ps) \<or> (has_var_keyword ?ps \<and> k \<notin> set (map pname ?ps))"
    by (simp add: construct_defs example_class_defs)
  have required: "\<forall>p \<in> set (value_params ?ps). pdefault p = None \<longrightarrow> pname p \<in> set (map fst ?F)"
    by (simp add: construct_defs example_class_defs)
  have body: "init_body Pair_class (bind_args ?ps ?F) = Inr ?F"
    by (simp add: construct_defs example_class_defs)
  have stores: "\<forall>(k, v) \<in> set (named (bind_args ?ps ?F)). map_of ?F k = Some v"
    by (simp add: construct_defs example_class_defs)
  have a: "required_param ''a'' \<in> set (value_params ?ps)"
    and b: "required_param ''b'' \<in> set (value_params ?ps)"
    by (simp_all add: construct_defs example_class_defs)
  note t = create_config_complete [OF names recv accepted required body stores, of rev "''m''"]
  from t have one: "create_config rev Pair_class ?F ''m'' = Inr ?F"
    by (rule conjunct1)
  from t have all: "\<forall>p \<in> set (value_params ?ps). \<forall>v.
            map_of ?F (pname p) = Some v \<longrightarrow> map_of ?F (pname p) = Some v"
    by (rule conjunct2)
  from all [rule_format, OF a, of "StrVal ''x''"]
  have two: "map_of ?F ''a'' = Some (StrVal ''x'')"
    by (simp add: required_param_def)
  from all [rule_format, OF b, of "IntVal 1"]
  have three: "map_of ?F ''b'' = Some (IntVal 1)"
    by (simp add: required_param_def)
  from names recv body one two three show ?thesis by blast
qed

text \<open>
  Claim C2 as it is stated fails in five ways; in each, no required field is missing.
  \<^verbatim>\<open>Named\<close> has no \<^verbatim>\<open>**kwargs\<close>: on \<^verbatim>\<open>{'name': 'x', 'extra': 1}\<close> the
  call raises \<^verbatim>\<open>TypeError\<close> for the unexpected keyword and \<^verbatim>\<open>create_config\<close>
  raises \<^verbatim>\<open>m is incomplete (missing )\<close>. \<^verbatim>\<open>Checked\<close> rejects the empty name:
  on \<^verbatim>\<open>{'name': ''}\<close> \<^verbatim>\<open>create_config\<close> raises the \<^verbatim>\<open>ValueError\<close> of the
  body. \<^verbatim>\<open>Titled\<close> keeps its argument under another name: on
  \<^verbatim>\<open>{'name': 'x'}\<close> the object has no attribute \<^verbatim>\<open>name\<close>. \<^verbatim>\<open>Defaulted\<close>
  takes \<^verbatim>\<open>a\<close> by position only: on \<^verbatim>\<open>{'a': 5}\<close> the key goes to
  \<^verbatim>\<open>**kwargs\<close> and the attribute \<^verbatim>\<open>a\<close> is the default 1. \<^verbatim>\<open>Bare\<close>
  has a constructor without parameters: the call raises \<^verbatim>\<open>TypeError\<close> on the
  empty configuration.
\<close>

theorem create_config_complete_counterexample:
  "missing_args Named_class [(''name'', StrVal ''x''), (''extra'', IntVal 1)] = [] \<and>
   create_config id Named_class [(''name'', StrVal ''x''), (''extra'', IntVal 1)] ''m''
     = Inl (BriefcaseConfigError ''m is incomplete (missing )'') \<and>
   missing_args Checked_class [(''name'', StrVal [])] = [] \<and>
   create_config id Checked_class [(''name'', StrVal [])] ''m''
     = Inl (ValueError ''name is empty'') \<and>
   missing_args Titled_class [(''name'', StrVal ''x'')] = [] \<and>
   create_config id Titled_class [(''name'', StrVal ''x'')] ''m''
     = Inr [(''title'', StrVal ''x'')] \<and>
   map_of [(''title'', StrVal ''x'')] ''name'' = None \<and>
   missing_args Defaulted_class [(''a'', IntVal 5)] = [] \<and>
   create_config id Defaulted_class [(''a'', IntVal 5)] ''m'' = Inr [(''a'', IntVal 1)] \<and>
   map_of [(''a'', IntVal 1)] ''a'' \<noteq> map_of [(''a'', IntVal 5)] ''a'' \<and>
   missing_args Bare_class [] = [] \<and>
   create_config id Bare_class [] ''m''
     = Inl (BriefcaseConfigError ''m is incomplete (missing )'')"
  by (simp add: construct_defs example_class_defs titled_body_def Titled_class_def
        Defaulted_class_def Bare_class_def)

text \<open>
  Claim C8, as the code has it. A failure of the call \<^verbatim>\<open>klass(**config)\<close> that is
  no \<^verbatim>\<open>TypeError\<close> leaves \<^verbatim>\<open>create_config\<close> as it was raised. A
  \<^verbatim>\<open>TypeError\<close>, wherever it was raised, is replaced by the
  \<^verbatim>\<open>BriefcaseConfigError\<close> that lists the missing names.
\<close>

theorem create_config_propagates:
  assumes "construct klass config = Inl e"
  shows "(\<not> is_TypeError e \<longrightarrow> create_config set_iter klass config msg = Inl e) \<and>
         (is_TypeError e \<longrightarrow>
            create_config set_iter klass config msg =
              Inl (BriefcaseConfigError
                     (msg @ '' is incomplete (missing ''
                        @ join '', '' (map quote (set_iter (missing_args klass config))) @ '')'')))"
  using assms by (simp add: create_config_def)

text \<open>
  The theorem at \<^verbatim>\<open>Checked\<close>: with the empty name the \<^verbatim>\<open>ValueError\<close> of the
  body comes out unchanged, and without a name the \<^verbatim>\<open>TypeError\<close> of the call is
  replaced.
\<close>

theorem create_config_propagates_witness:
  "construct Checked_class [(''name'', StrVal [])] = Inl (ValueError ''name is empty'') \<and>
   \<not> is_TypeError (ValueError ''name is empty'') \<and>
   create_config id Checked_class [(''name'', StrVal [])] ''m'' = Inl (ValueError ''name is empty'') \<and>
   construct Checked_class [] = Inl (TypeError ''__init__() missing required arguments'') \<and>
   is_TypeError (TypeError ''__init__() missing required arguments'') \<and>
   create_config id Checked_class [] ''m''
     = Inl (BriefcaseConfigError (''m is incomplete (missing '' @ quote ''name'' @ '')''))"
proof -
  have c: "construct Checked_class [(''name'', StrVal [])] = Inl (ValueError ''name is empty'')"
    by (simp add: construct_defs example_class_defs)
  have t: "\<not> is_TypeError (ValueError ''name is empty'')"
    by simp
  have c': "construct Checked_class [] = Inl (TypeError ''__init__() missing required arguments'')"
    by (simp add: construct_defs example_class_defs)
  have t': "is_TypeError (TypeError ''__init__() missing required arguments'')"
    by simp
  have m: "missing_args Checked_class [] = [''name'']"
    by (simp add: construct_defs example_class_defs)
  from create_config_propagates [OF c, of id "''m''"] t
  have one: "create_config id Checked_class [(''name'', StrVal [])] ''m''
               = Inl (ValueError ''name is empty'')"
    by simp
  from create_config_propagates [OF c', of id "''m''"] t'
  have two: "create_config id Checked_class [] ''m''
     = Inl (BriefcaseConfigError (''m is incomplete (missing '' @ quote ''name'' @ '')''))"
    by (simp add: m)
  from c t one c' t' two show ?thesis by blast
qed

text \<open>
  Claim C8 as it is stated fails on the failure it names. \<^verbatim>\<open>Checked\<close> rejects a
  name that is no string with a \<^verbatim>\<open>TypeError\<close> raised in its body. On
  \<^verbatim>\<open>{'name': 3}\<close> no argument is missing and the arguments are bound, yet
  \<^verbatim>\<open>create_config\<close> replaces the error of the body by the
  \<^verbatim>\<open>BriefcaseConfigError\<close> for missing fields, with an empty list of names.
\<close>

theorem create_config_propagates_counterexample:
  "missing_args Checked_class [(''name'', IntVal 3)] = [] \<and>
   unbound (init_params Checked_class) [(''name'', IntVal 3)] = [] \<and>
   construct Checked_class [(''name'', IntVal 3)] = Inl (TypeError ''name must be a string'') \<and>
   create_config id Checked_class [(''name'', IntVal 3)] ''m''
     = Inl (BriefcaseConfigError ''m is incomplete (missing )'')"
  by (simp add: construct_defs example_class_defs)


section \<open>Properties of the URL, the path and the file system\<close>


subsection \<open>The last segment of the path\<close>

text \<open>
  \<^verbatim>\<open>split\<close> never returns the empty list, so the index \<^verbatim>\<open>[-1]\<close> never raises.
  The last part has no separator, and it is empty when the string ends with the
  separator.
\<close>

lemma str_split_nonempty: "str_split sep s \<noteq> []"
  by (induction s) (auto split: list.splits)

lemma str_split_single_empty: "str_split sep s = [[]] \<longleftrightarrow> s = []"
proof (cases s)
  case Nil
  then show ?thesis by simp
next
  case (Cons c cs)
  then show ?thesis
    using str_split_nonempty [of sep cs] by (auto split: list.splits)
qed

lemma last_str_split_no_sep: "sep \<notin> set (last (str_split sep s))"
proof (induction s)
  case Nil
  then show ?case by simp
next
  case (Cons c cs)
  then show ?case
    using str_split_nonempty [of sep cs] by (auto split: list.splits)
qed

lemma last_str_split_trailing:
  "s \<noteq> [] \<Longrightarrow> last s = sep \<Longrightarrow> last (str_split sep s) = []"
proof (induction s)
  case Nil
  then show ?case by simp
next
  case (Cons c cs)
  show ?case
  proof (cases "cs = []")
    case True
    with Cons.prems show ?thesis by simp
  next
    case False
    with Cons have IH: "last (str_split sep cs) = []" by simp
    have ne: "str_split sep cs \<noteq> []" by (rule str_split_nonempty)
    have not_single: "str_split sep cs \<noteq> [[]]"
      using False by (simp add: str_split_single_empty)
    show ?thesis
    proof (cases "c = sep")
      case True
      with IH ne show ?thesis by simp
    next
      case c: False
      obtain part parts where sp: "str_split sep cs = part # parts"
        using ne by (cases "str_split sep cs") auto
      with IH not_single have "parts \<noteq> []" by auto
      with sp IH c show ?thesis by simp
    qed
  qed
qed

text \<open>
  The last part of \<^verbatim>\<open>s.split(sep)\<close> is what follows the last separator, or the
  whole string when there is none; it is made of characters of the string.
\<close>

lemma str_split_no_sep: "sep \<notin> set s \<Longrightarrow> str_split sep s = [s]"
  by (induction s) auto

lemma str_split_two: "sep \<in> set s \<Longrightarrow> \<exists>a b bs. str_split sep s = a # b # bs"
proof (induction s)
  case Nil
  then show ?case by simp
next
  case (Cons c cs)
  show ?case
  proof (cases "c = sep")
    case True
    with str_split_nonempty [of sep cs] show ?thesis
      by (cases "str_split sep cs") auto
  next
    case False
    with Cons.prems have "sep \<in> set cs" by simp
    from Cons.IH [OF this] False show ?thesis by auto
  qed
qed

lemma last_str_split_after_sep:
  "sep \<notin> set seg \<Longrightarrow> last (str_split sep (pre @ sep # seg)) = seg"
proof (induction pre)
  case Nil
  then show ?case by (simp add: str_split_no_sep)
next
  case (Cons c pre)
  have "sep \<in> set (pre @ sep # seg)" by simp
  from str_split_two [OF this] obtain a b bs
    where sp: "str_split sep (pre @ sep # seg) = a # b # bs" by blast
  with Cons show ?case by simp
qed

lemma last_str_split_subset: "set (last (str_split sep s)) \<subseteq> set s"
proof (cases "sep \<in> set s")
  case False
  then show ?thesis by (simp add: str_split_no_sep)
next
  case True
  from split_list_last [OF this] obtain pre seg where "s = pre @ sep # seg" "sep \<notin> set seg"
    by blast
  with last_str_split_after_sep [of sep seg pre] show ?thesis by auto
qed

lemma take_length_takeWhile: "take (length (takeWhile P xs)) xs = takeWhile P xs"
  by (induction xs) auto

lemma takeWhile_all: "(\<forall>x \<in> set xs. P x) \<Longrightarrow> takeWhile P xs = xs"
  by (induction xs) auto

text \<open>
  \<^verbatim>\<open>_splitparams\<close> cuts the path at the first semicolon of its last segment, on a
  path that has a semicolon.
\<close>

lemma rfind_last:
  assumes "c \<notin> set seg"
  shows "rfind c (pre @ c # seg) = Some (length pre)"
proof -
  have "takeWhile (\<lambda>x. x \<noteq> c) (xs @ c # ys) = xs" if "c \<notin> set xs" for xs ys
    using that by (induction xs) auto
  from this [of "rev seg" "rev pre"] assms show ?thesis by (simp add: rfind_def)
qed

lemma splitparams_last_segment:
  "last (str_split CHR ''/'' (fst (splitparams p)))
     = takeWhile (\<lambda>c. c \<noteq> CHR '';'') (last (str_split CHR ''/'' p))"
  if semi: "CHR '';'' \<in> set p"
proof (cases "CHR ''/'' \<in> set p")
  case False
  then have r: "rfind CHR ''/'' p = None" by (simp add: rfind_def)
  from semi have f: "find CHR '';'' p = Some (length (takeWhile (\<lambda>c. c \<noteq> CHR '';'') p))"
    by (simp add: find_def)
  have "CHR ''/'' \<notin> set (takeWhile (\<lambda>c. c \<noteq> CHR '';'') p)"
    using False by (auto dest: set_takeWhileD)
  with False r f show ?thesis
    by (simp add: splitparams_def take_length_takeWhile str_split_no_sep)
next
  case True
  from split_list_last [OF this] obtain pre seg
    where p: "p = pre @ CHR ''/'' # seg" and seg: "CHR ''/'' \<notin> set seg"
    by blast
  have r: "rfind CHR ''/'' p = Some (length pre)"
    unfolding p by (rule rfind_last [OF seg])
  have whole: "last (str_split CHR ''/'' p) = seg"
    unfolding p by (rule last_str_split_after_sep [OF seg])
  show ?thesis
  proof (cases "CHR '';'' \<in> set seg")
    case False
    then have "find_from CHR '';'' (length pre) p = None"
      by (simp add: find_from_def find_def p)
    with r have fst: "fst (splitparams p) = p"
      by (simp add: splitparams_def)
    from False have tw: "takeWhile (\<lambda>c. c \<noteq> CHR '';'') seg = seg"
      by (induction seg) auto
    show ?thesis
      unfolding fst whole by (rule tw [symmetric])
  next
    case semi_seg: True
    let ?tw = "takeWhile (\<lambda>c. c \<noteq> CHR '';'') seg"
    from semi_seg
    have "find_from CHR '';'' (length pre) p = Some (length pre + Suc (length ?tw))"
      by (simp add: find_from_def find_def p)
    with r have "fst (splitparams p) = take (length pre + Suc (length ?tw)) p"
      by (simp add: splitparams_def)
    also have "\<dots> = pre @ CHR ''/'' # ?tw"
      by (simp add: p take_length_takeWhile)
    finally have fst: "fst (splitparams p) = pre @ CHR ''/'' # ?tw" .
    have "CHR ''/'' \<notin> set ?tw"
      using seg by (auto dest: set_takeWhileD)
    from last_str_split_after_sep [OF this, of pre] fst whole show ?thesis by simp
  qed
qed

text \<open>
  \<^verbatim>\<open>urlsplit\<close> takes the path out of the URL, stripped of its leading blanks and
  of its tabs and line ends: after the scheme with its colon and after the two slashes
  with the network location, the path runs up to the first question mark or hash.
\<close>

lemma takeWhile_takeWhile:
  "takeWhile P (takeWhile Q xs) = takeWhile (\<lambda>x. P x \<and> Q x) xs"
  by (induction xs) auto

lemma find_split: "find c s = Some i \<Longrightarrow> s = take i s @ c # drop (Suc i) s"
proof -
  assume "find c s = Some i"
  then have c: "c \<in> set s" and i: "i = length (takeWhile (\<lambda>x. x \<noteq> c) s)"
    by (auto simp: find_def split: if_splits)
  have "s = takeWhile (\<lambda>x. x \<noteq> c) s @ dropWhile (\<lambda>x. x \<noteq> c) s" by simp
  moreover from c have "dropWhile (\<lambda>x. x \<noteq> c) s \<noteq> []" by (simp add: dropWhile_eq_Nil_conv)
  then have "dropWhile (\<lambda>x. x \<noteq> c) s = c # tl (dropWhile (\<lambda>x. x \<noteq> c) s)"
    using hd_dropWhile [of "\<lambda>x. x \<noteq> c" s] by (cases "dropWhile (\<lambda>x. x \<noteq> c) s") auto
  moreover have "drop (Suc i) s = tl (dropWhile (\<lambda>x. x \<noteq> c) s)"
    by (simp add: i dropWhile_eq_drop drop_Suc tl_drop)
  ultimately show ?thesis
    by (metis i take_length_takeWhile)
qed

lemma scheme_step:
  assumes "(case find CHR '':'' u of
              None \<Rightarrow> ([], u)
            | Some i \<Rightarrow> if C i then (lower (take i u), drop (i + 1) u) else ([], u)) = (scheme, u3)"
  shows "\<exists>s. u = s @ u3 \<and> (s = [] \<and> scheme = [] \<or> (\<exists>sch. s = sch @ '':'' \<and> scheme = lower sch))"
proof (cases "find CHR '':'' u")
  case None
  with assms show ?thesis by simp
next
  case (Some i)
  show ?thesis
  proof (cases "C i")
    case False
    with Some assms show ?thesis by simp
  next
    case True
    with Some assms have sc: "scheme = lower (take i u)" and u3: "u3 = drop (Suc i) u" by simp_all
    from find_split [OF Some] have "u = (take i u @ '':'') @ u3" by (simp add: u3)
    with sc show ?thesis by blast
  qed
qed

lemma netloc_step:
  assumes "(if take 2 u3 = ''//'' then splitnetloc u3 else ([], u3)) = (netloc, u4)"
  shows "\<exists>n. u3 = n @ u4 \<and> (n = [] \<and> netloc = [] \<or> n = ''//'' @ netloc)"
proof (cases "take 2 u3 = ''//''")
  case False
  with assms show ?thesis by simp
next
  case True
  with assms have nl: "netloc = takeWhile (\<lambda>c. c \<notin> set ''/?#'') (drop 2 u3)"
    and u4: "u4 = dropWhile (\<lambda>c. c \<notin> set ''/?#'') (drop 2 u3)"
    by (simp_all add: splitnetloc_def Let_def)
  have "u3 = take 2 u3 @ drop 2 u3" by simp
  also have "drop 2 u3 = netloc @ u4" by (simp add: nl u4)
  finally have "u3 = (''//'' @ netloc) @ u4" using True by simp
  then show ?thesis by blast
qed

lemma urlsplit_decompose:
  assumes "urlsplit url = Inr (scheme, netloc, upath, query, fragment)"
  shows "\<exists>s n rest.
           filter (\<lambda>c. c \<notin> set UNSAFE_URL_BYTES_TO_REMOVE) (dropWhile WHATWG_C0_CONTROL_OR_SPACE url)
             = s @ n @ rest
         \<and> (s = [] \<and> scheme = [] \<or> (\<exists>sch. s = sch @ '':'' \<and> scheme = lower sch))
         \<and> (n = [] \<and> netloc = [] \<or> n = ''//'' @ netloc)
         \<and> upath = takeWhile (\<lambda>c. c \<noteq> CHR ''?'' \<and> c \<noteq> CHR ''#'') rest"
proof -
  let ?u = "filter (\<lambda>c. c \<notin> set UNSAFE_URL_BYTES_TO_REMOVE) (dropWhile WHATWG_C0_CONTROL_OR_SPACE url)"
  let ?sc = "case find CHR '':'' ?u of
               None \<Rightarrow> ([], ?u)
             | Some i \<Rightarrow>
                 if 0 < i \<and> hd ?u \<in> set (ascii_lowercase @ ascii_uppercase)
                    \<and> (\<forall>c \<in> set (take i ?u). c \<in> set scheme_chars)
                 then (lower (take i ?u), drop (i + 1) ?u)
                 else ([], ?u)"
  obtain scheme' u3 where sc: "?sc = (scheme', u3)" by (cases ?sc)
  let ?nl = "if take 2 u3 = ''//'' then splitnetloc u3 else ([], u3)"
  obtain netloc' u4 where nl: "?nl = (netloc', u4)" by (cases ?nl)
  from assms have res: "scheme = scheme' \<and> netloc = netloc'
      \<and> upath = takeWhile (\<lambda>c. c \<noteq> CHR ''?'') (takeWhile (\<lambda>c. c \<noteq> CHR ''#'') u4)"
    unfolding urlsplit_def Let_def sc prod.case nl by (simp split: if_splits)
  from scheme_step [OF sc] obtain s
    where s: "?u = s @ u3" "s = [] \<and> scheme' = [] \<or> (\<exists>sch. s = sch @ '':'' \<and> scheme' = lower sch)"
    by blast
  from netloc_step [OF nl] obtain n
    where n: "u3 = n @ u4" "n = [] \<and> netloc' = [] \<or> n = ''//'' @ netloc'"
    by blast
  from res have "upath = takeWhile (\<lambda>c. c \<noteq> CHR ''?'' \<and> c \<noteq> CHR ''#'') u4"
    by (simp add: takeWhile_takeWhile)
  moreover from s n have "?u = s @ n @ u4" by simp
  ultimately show ?thesis using s(2) n(2) res by blast
qed

text \<open>
  \<^verbatim>\<open>urlparse\<close> is \<^verbatim>\<open>urlsplit\<close>, followed by \<^verbatim>\<open>_splitparams\<close> on the
  path for the schemes that take parameters.
\<close>

lemma urlparse_urlsplit:
  assumes "urlparse url = Inr parsed"
  shows "\<exists>scheme netloc upath query fragment.
           urlsplit url = Inr (scheme, netloc, upath, query, fragment)
         \<and> url_path parsed = (if scheme \<in> set uses_params \<and> CHR '';'' \<in> set upath
                               then fst (splitparams upath) else upath)"
proof (cases "urlsplit url")
  case (Inl e)
  with assms show ?thesis by (simp add: urlparse_def)
next
  case (Inr t)
  obtain scheme netloc upath query fragment
    where t: "t = (scheme, netloc, upath, query, fragment)" by (cases t)
  show ?thesis
  proof (cases "scheme \<in> set uses_params \<and> CHR '';'' \<in> set upath")
    case True
    with assms Inr t have "url_path parsed = fst (splitparams upath)"
      by (auto simp: urlparse_def Let_def split: prod.splits)
    with Inr t True show ?thesis by simp
  next
    case False
    with assms Inr t have "url_path parsed = upath"
      by (auto simp: urlparse_def Let_def)
    with Inr t False show ?thesis by auto
  qed
qed


subsection \<open>mkdir\<close>

text \<open>
  A successful \<^verbatim>\<open>mkdir\<close> leaves the path as a directory and adds directories only;
  on a directory it changes nothing.
\<close>

lemma adds_dirs_refl: "adds_dirs fs fs"
  by (simp add: adds_dirs_def)

lemma adds_dirs_trans: "adds_dirs fs fs1 \<Longrightarrow> adds_dirs fs1 fs2 \<Longrightarrow> adds_dirs fs fs2"
  unfolding adds_dirs_def by metis

lemma os_mkdir_Inr:
  assumes "os_mkdir fs p = Inr fs'"
  shows "fs' = fs(p \<mapsto> Dir) \<and> fs p = None \<and> p \<noteq> []"
  using assms by (auto simp: os_mkdir_def lookup_def split: if_splits option.splits node.splits)

lemma os_mkdir_result:
  assumes "os_mkdir fs p = Inr fs'"
  shows "is_dir fs' p \<and> adds_dirs fs fs'"
  using os_mkdir_Inr [OF assms] by (auto simp: is_dir_def lookup_def adds_dirs_def)

lemma mkdir_leaf_result:
  assumes "mkdir_leaf fs p = Inr fs'"
  shows "is_dir fs' p \<and> adds_dirs fs fs'"
proof (cases "os_mkdir fs p")
  case (Inl e)
  with assms have "fs' = fs" "is_dir fs p"
    by (auto simp: mkdir_leaf_def split: if_splits)
  then show ?thesis by (simp add: adds_dirs_refl)
next
  case (Inr fs2)
  with assms have "fs2 = fs'" by (simp add: mkdir_leaf_def)
  with Inr os_mkdir_result show ?thesis by simp
qed

lemma mkdir_result:
  "mkdir fs p = Inr fs' \<Longrightarrow> is_dir fs' p \<and> adds_dirs fs fs'"
proof (induction fs p arbitrary: fs' rule: mkdir.induct)
  case (1 fs p)
  show ?case
  proof (cases "os_mkdir fs p")
    case (Inr fs2)
    with "1.prems" have "fs2 = fs'" by (simp add: mkdir.simps [of fs p])
    with Inr os_mkdir_result show ?thesis by simp
  next
    case (Inl e)
    show ?thesis
    proof (cases "is_FileNotFoundError e")
      case False
      with Inl "1.prems" have "fs' = fs" "is_dir fs p"
        by (auto simp: mkdir.simps [of fs p] split: if_splits)
      then show ?thesis by (simp add: adds_dirs_refl)
    next
      case True
      with Inl "1.prems" have ne: "p \<noteq> []"
        by (auto simp: mkdir.simps [of fs p] split: if_splits)
      from Inl True ne "1.prems" obtain fs1
        where parent: "mkdir fs (butlast p) = Inr fs1" and leaf: "mkdir_leaf fs1 p = Inr fs'"
        by (auto simp: mkdir.simps [of fs p] split: sum.splits)
      from "1.IH" [OF Inl True ne parent] have "adds_dirs fs fs1" by simp
      with mkdir_leaf_result [OF leaf] show ?thesis
        by (auto intro: adds_dirs_trans)
    qed
  qed
qed

lemma mkdir_existing:
  assumes "is_dir fs p"
  shows "mkdir fs p = Inr fs"
proof -
  from assms have "os_mkdir fs p = Inl FileExistsError"
    by (simp add: os_mkdir_def is_dir_def)
  with assms show ?thesis
    by (simp add: mkdir.simps [of fs p])
qed

lemma adds_dirs_exists: "adds_dirs fs fs' \<Longrightarrow> exists_path fs q \<Longrightarrow> exists_path fs' q"
  unfolding adds_dirs_def exists_path_def lookup_def by (metis option.distinct(1))

lemma adds_dirs_files: "adds_dirs fs fs' \<Longrightarrow> (fs' q = Some (File b)) = (fs q = Some (File b))"
  unfolding adds_dirs_def by (metis node.distinct(1) option.distinct(1) option.inject)

lemma adds_dirs_absent: "adds_dirs fs fs' \<Longrightarrow> lookup fs' q = None \<Longrightarrow> lookup fs q = None"
  unfolding adds_dirs_def lookup_def by (metis option.distinct(1))

subsection \<open>download_url, case by case\<close>

text \<open>
  The two branches of \<^verbatim>\<open>if not filename.exists()\<close>, once the cache name is known
  and \<^verbatim>\<open>mkdir\<close> has succeeded.
\<close>

lemma download_url_miss:
  assumes "url_cache_name url = Inr name"
    and "mkdir (files w) d = Inr fs1"
    and "\<not> exists_path fs1 (joinpath d name)"
    and "requests_get url = Inr response"
  shows "download_url requests_get w url d =
     (if status_code response = 404 then
        (Inl (MissingNetworkResourceError url),
         w\<lparr>requests_sent := requests_sent w @ [url], files := fs1\<rparr>)
      else if status_code response \<noteq> 200 then
        (Inl (BadNetworkResourceError url (status_code response)),
         w\<lparr>requests_sent := requests_sent w @ [url], files := fs1\<rparr>)
      else
        (case open_wb fs1 (joinpath d name) of
           Inl e \<Rightarrow> (Inl e, w\<lparr>requests_sent := requests_sent w @ [url], files := fs1\<rparr>)
         | Inr fs3 \<Rightarrow>
             (case save_body response (joinpath d name)
                     (w\<lparr>requests_sent := requests_sent w @ [url], files := fs3\<rparr>) of
                (Inl e, w4) \<Rightarrow> (Inl e, w4)
              | (Inr u, w4) \<Rightarrow> (Inr (joinpath d name), w4\<lparr>stdout := stdout w4 @ newline\<rparr>))))"
  using assms by (simp add: download_url_def Let_def split: sum.splits)

lemma download_url_hit:
  assumes "url_cache_name url = Inr name"
    and "mkdir (files w) d = Inr fs1"
    and "exists_path fs1 (joinpath d name)"
  shows "download_url requests_get w url d =
     (Inr (joinpath d name),
      w\<lparr>files := fs1, stdout := stdout w @ text_of (name @ '' already downloaded'') @ newline\<rparr>)"
  using assms by (simp add: download_url_def Let_def)

text \<open>
  After \<^verbatim>\<open>mkdir\<close> an absent target lies directly below the cache directory, so
  \<^verbatim>\<open>open(filename, 'wb')\<close> creates it. The exceptions raised while the file is open
  are those of \<^verbatim>\<open>int\<close> and of the division.
\<close>

lemma joinpath_cases: "joinpath d name = d \<or> joinpath d name = d @ [name]"
  by (simp add: joinpath_def)

lemma open_wb_fresh:
  assumes "is_dir fs1 d" and "\<not> exists_path fs1 (joinpath d name)"
  shows "open_wb fs1 (joinpath d name) = Inr (fs1(joinpath d name \<mapsto> File []))"
proof -
  from assms have "joinpath d name \<noteq> d"
    by (auto simp: is_dir_def exists_path_def)
  with joinpath_cases [of d name] have j: "joinpath d name = d @ [name]" by simp
  from assms(2) have "lookup fs1 (d @ [name]) = None"
    by (simp add: exists_path_def j)
  with assms(1) show ?thesis
    by (simp add: open_wb_def j is_dir_def)
qed

lemma write_chunks_error:
  "write_chunks filename total_bytes chunks downloaded w = (Inl e, w') \<Longrightarrow> e = ZeroDivisionError"
  by (induction chunks arbitrary: downloaded w) (auto simp: Let_def split: if_splits)

lemma save_body_error:
  assumes "save_body response filename w = (Inl e, w')"
  shows "e = ZeroDivisionError \<or> e = ValueError ''invalid literal for int() with base 10''"
  using assms write_chunks_error
  by (fastforce simp: save_body_def split: option.splits)

lemma download_url_returns_path:
  assumes "download_url requests_get w url d = (Inr p, w')"
  shows "\<exists>name fs1. url_cache_name url = Inr name \<and> mkdir (files w) d = Inr fs1 \<and> p = joinpath d name"
  using assms
  by (auto simp: download_url_def Let_def split: sum.splits if_splits prod.splits)

lemma url_cache_name_parsed:
  assumes "url_cache_name url = Inr name"
  shows "\<exists>parsed. urlparse url = Inr parsed \<and> name = last (str_split CHR ''/'' (url_path parsed))"
  using assms by (auto simp: url_cache_name_def split: sum.splits)

text \<open>
  The cache name is the last segment of the path that \<^verbatim>\<open>urlsplit\<close> gives, cut at
  its first semicolon for the schemes that take parameters.
\<close>

lemma url_cache_name_segment:
  assumes "url_cache_name url = Inr name"
  shows "\<exists>scheme netloc upath query fragment.
           urlsplit url = Inr (scheme, netloc, upath, query, fragment)
         \<and> name = (if scheme \<in> set uses_params
                    then takeWhile (\<lambda>c. c \<noteq> CHR '';'') (last (str_split CHR ''/'' upath))
                    else last (str_split CHR ''/'' upath))"
proof -
  from url_cache_name_parsed [OF assms] obtain parsed
    where u: "urlparse url = Inr parsed" and nm: "name = last (str_split CHR ''/'' (url_path parsed))"
    by blast
  from urlparse_urlsplit [OF u] obtain scheme netloc upath query fragment
    where sp: "urlsplit url = Inr (scheme, netloc, upath, query, fragment)"
      and path: "url_path parsed = (if scheme \<in> set uses_params \<and> CHR '';'' \<in> set upath
                               then fst (splitparams upath) else upath)"
    by blast
  let ?seg = "last (str_split CHR ''/'' upath)"
  have "name = (if scheme \<in> set uses_params then takeWhile (\<lambda>c. c \<noteq> CHR '';'') ?seg else ?seg)"
  proof (cases "scheme \<in> set uses_params")
    case False
    with nm path show ?thesis by simp
  next
    case True
    show ?thesis
    proof (cases "CHR '';'' \<in> set upath")
      case semi: True
      with True nm path splitparams_last_segment [OF semi] show ?thesis by simp
    next
      case False
      with last_str_split_subset [of "CHR ''/''" upath] have "CHR '';'' \<notin> set ?seg" by blast
      then have tw: "takeWhile (\<lambda>c. c \<noteq> CHR '';'') ?seg = ?seg" by (induction ?seg) auto
      from False nm path have "name = ?seg" by simp
      with True show ?thesis unfolding tw by simp
    qed
  qed
  with sp show ?thesis by blast
qed


subsection \<open>The loop over the chunks\<close>

text \<open>
  With a total other than zero the loop ends without an exception: the file has received
  every chunk, and one line was printed for each running total.
\<close>

lemma write_chunks_run:
  assumes "total_bytes \<noteq> 0" and "files w filename = Some (File old)"
  shows "write_chunks filename total_bytes chunks downloaded w =
           (Inr (),
            w\<lparr>stdout := stdout w @ concat (map (\<lambda>t. progress_line (int_truediv (50 * t) total_bytes))
                                              (running_totals downloaded chunks)),
               files := (files w)(filename \<mapsto> File (old @ concat chunks))\<rparr>)"
  using assms
proof (induction chunks arbitrary: downloaded w old)
  case Nil
  then show ?case by (simp add: fun_upd_idem)
next
  case (Cons data rest)
  let ?d = "downloaded + int (length data)"
  let ?line = "progress_line (int_truediv (50 * ?d) total_bytes)"
  let ?w2 = "w\<lparr>files := (files w)(filename \<mapsto> File (old @ data)), stdout := stdout w @ ?line\<rparr>"
  have step: "write_chunks filename total_bytes (data # rest) downloaded w
                = write_chunks filename total_bytes rest ?d ?w2"
    using Cons.prems by (simp add: Let_def file_write_def)
  have f: "files ?w2 filename = Some (File (old @ data))"
    by simp
  have upd: "(files ?w2)(filename \<mapsto> File ((old @ data) @ concat rest))
               = (files w)(filename \<mapsto> File (old @ concat (data # rest)))"
    by simp
  have out: "stdout ?w2 @ concat (map (\<lambda>t. progress_line (int_truediv (50 * t) total_bytes))
                                      (running_totals ?d rest))
               = stdout w @ concat (map (\<lambda>t. progress_line (int_truediv (50 * t) total_bytes))
                                      (running_totals downloaded (data # rest)))"
    by simp
  show ?case
    unfolding step Cons.IH [OF Cons.prems(1) f] upd out by (simp add: fun_upd_def)
qed

lemma running_totals_bounds:
  "t \<in> set (running_totals acc chunks) \<Longrightarrow> acc \<le> t \<and> t \<le> acc + int (length (concat chunks))"
  by (induction chunks arbitrary: acc) (fastforce)+

lemma int_truediv_floor: "0 \<le> a \<Longrightarrow> 0 < b \<Longrightarrow> int_truediv a b = a div b"
  by (cases "a = 0") (simp_all add: int_truediv_def)

lemma done_bounds:
  assumes "(0::int) \<le> t" "t \<le> total_bytes" "0 < total_bytes"
  shows "0 \<le> (50 * t) div total_bytes \<and> (50 * t) div total_bytes \<le> 50"
proof -
  have "0 \<le> (50 * t) div total_bytes"
    using assms by (simp add: pos_imp_zdiv_nonneg_iff)
  moreover have "(50 * t) div total_bytes \<le> (50 * total_bytes) div total_bytes"
    using assms by (intro zdiv_mono1) simp_all
  ultimately show ?thesis using assms by simp
qed

lemma progress_bar_width:
  assumes "(0::int) \<le> done" "done \<le> 50"
  shows "length (progress_bar done) = 50"
  using assms by (simp add: progress_bar_def)

lemma save_body_no_length:
  assumes "content_length response = None" and "files w filename = Some (File [])"
  shows "save_body response filename w
           = (Inr (), w\<lparr>files := (files w)(filename \<mapsto> File (content response))\<rparr>)"
  using assms by (simp add: save_body_def file_write_def)

lemma save_body_length:
  assumes "content_length response = Some header" and "py_int header = Some total_bytes"
    and "0 < total_bytes" and "files w filename = Some (File [])"
    and "int (length (concat (iter_content response 1048576))) \<le> total_bytes"
  shows "save_body response filename w =
           (Inr (),
            w\<lparr>stdout := stdout w @ concat (map (\<lambda>t. progress_line ((50 * t) div total_bytes))
                                              (running_totals 0 (iter_content response 1048576))),
               files := (files w)(filename \<mapsto> File (concat (iter_content response 1048576)))\<rparr>)"
proof -
  have "map (\<lambda>t. progress_line (int_truediv (50 * t) total_bytes))
            (running_totals 0 (iter_content response 1048576))
      = map (\<lambda>t. progress_line ((50 * t) div total_bytes))
            (running_totals 0 (iter_content response 1048576))"
  proof (rule map_cong [OF refl])
    fix t assume "t \<in> set (running_totals 0 (iter_content response 1048576))"
    from running_totals_bounds [OF this] have "0 \<le> 50 * t" by simp
    from int_truediv_floor [OF this assms(3)]
    show "progress_line (int_truediv (50 * t) total_bytes) = progress_line ((50 * t) div total_bytes)"
      by simp
  qed
  with write_chunks_run [of total_bytes w filename "[]" "iter_content response 1048576" 0] assms
  show ?thesis
    by (simp add: save_body_def)
qed

lemma progress_line_shape:
  assumes "(0::int) \<le> done" "done \<le> 50"
  shows "progress_line done =
           [Ch (CHR 0x0D)] @ replicate (nat done) FULL_BLOCK
             @ replicate (50 - nat done) (Ch CHR ''.'')
             @ text_of ('' '' @ str_nat (2 * nat done) @ ''%'')"
proof -
  have "nat (50 - done) = 50 - nat done" using assms by simp
  moreover have "str_int (2 * done) = str_nat (2 * nat done)"
    using assms by (simp add: str_int_def nat_mult_distrib)
  ultimately show ?thesis by (simp add: progress_line_def progress_bar_def)
qed

text \<open>However the writing ends, it changes the file system at the target alone.\<close>

lemma write_chunks_files:
  assumes "files w filename = Some (File old)"
    and "write_chunks filename total_bytes chunks downloaded w = (r, w')"
  shows "\<exists>new. files w' = (files w)(filename \<mapsto> File new)"
  using assms
proof (induction chunks arbitrary: downloaded w old)
  case Nil
  then have "w' = w" by simp
  moreover from Nil.prems(1) have "(files w)(filename \<mapsto> File old) = files w"
    by (rule fun_upd_idem)
  ultimately show ?case by metis
next
  case (Cons data rest)
  let ?w1 = "w\<lparr>files := (files w)(filename \<mapsto> File (old @ data))\<rparr>"
  show ?case
  proof (cases "total_bytes = 0")
    case True
    with Cons.prems have "w' = ?w1" by (simp add: Let_def file_write_def)
    then show ?thesis by auto
  next
    case False
    let ?w2 = "?w1\<lparr>stdout := stdout ?w1 @ progress_line (int_truediv (50 * (downloaded + int (length data))) total_bytes)\<rparr>"
    from False Cons.prems
    have run: "write_chunks filename total_bytes rest (downloaded + int (length data)) ?w2 = (r, w')"
      by (simp add: Let_def file_write_def)
    have "files ?w2 filename = Some (File (old @ data))" by simp
    from Cons.IH [OF this run] obtain new where "files w' = (files ?w2)(filename \<mapsto> File new)"
      by blast
    then have "files w' = (files w)(filename \<mapsto> File new)" by simp
    then show ?thesis by blast
  qed
qed

lemma save_body_files:
  assumes "files w filename = Some (File old)"
    and "save_body response filename w = (r, w')"
  shows "\<exists>new. files w' = (files w)(filename \<mapsto> File new)"
proof (cases "content_length response")
  case None
  with assms show ?thesis by (auto simp: save_body_def file_write_def)
next
  case (Some header)
  show ?thesis
  proof (cases "py_int header")
    case None
    with Some assms have "w' = w" by (simp add: save_body_def)
    moreover from assms(1) have "(files w)(filename \<mapsto> File old) = files w"
      by (rule fun_upd_idem)
    ultimately show ?thesis by metis
  next
    case (Some total_bytes)
    with \<open>content_length response = Some header\<close> assms(2)
    have "write_chunks filename total_bytes (iter_content response (1024 * 1024)) 0 w = (r, w')"
      by (simp add: save_body_def)
    from write_chunks_files [OF assms(1) this] show ?thesis .
  qed
qed

text \<open>
  After a call that has returned a path, the cache directory is a directory and the path
  exists.
\<close>

lemma download_url_success_state:
  assumes "download_url requests_get w url d = (Inr p, w')"
  shows "\<exists>name. url_cache_name url = Inr name \<and> p = joinpath d name
           \<and> is_dir (files w') d \<and> exists_path (files w') p"
proof -
  from download_url_returns_path [OF assms] obtain name fs1
    where name: "url_cache_name url = Inr name" and dir: "mkdir (files w) d = Inr fs1"
      and p: "p = joinpath d name" by blast
  from mkdir_result [OF dir] have isd: "is_dir fs1 d" by simp
  have "is_dir (files w') d \<and> exists_path (files w') p"
  proof (cases "exists_path fs1 (joinpath d name)")
    case True
    from assms download_url_hit [OF name dir True, of requests_get]
    have "files w' = fs1" by auto
    with True isd p show ?thesis by simp
  next
    case False
    from open_wb_fresh [OF isd False]
    have op: "open_wb fs1 p = Inr (fs1(p \<mapsto> File []))" by (simp add: p)
    from isd False have neq: "p \<noteq> d"
      by (auto simp: p is_dir_def exists_path_def)
    with joinpath_cases [of d name] have pne: "p \<noteq> []" by (auto simp: p)
    let ?w3 = "w\<lparr>requests_sent := requests_sent w @ [url], files := fs1(p \<mapsto> File [])\<rparr>"
    obtain response where got: "requests_get url = Inr response"
      using assms name dir False
      by (cases "requests_get url") (auto simp: download_url_def Let_def)
    from assms op obtain u w4 where sb: "save_body response p ?w3 = (Inr u, w4)"
      and w': "w' = w4\<lparr>stdout := stdout w4 @ newline\<rparr>"
      unfolding download_url_miss [where requests_get = requests_get, OF name dir False got]
      by (auto simp: p split: if_splits sum.splits prod.splits)
    have "files ?w3 p = Some (File [])" by simp
    from save_body_files [OF this sb] obtain new
      where "files w4 = (fs1(p \<mapsto> File []))(p \<mapsto> File new)" by auto
    with w' have fw: "files w' = fs1(p \<mapsto> File new)" by simp
    from isd neq have "is_dir (files w') d"
      by (auto simp: fw is_dir_def lookup_def split: if_splits)
    moreover from pne have "exists_path (files w') p"
      by (simp add: fw exists_path_def lookup_def)
    ultimately show ?thesis by simp
  qed
  with name p show ?thesis by blast
qed

subsection \<open>The examples evaluated\<close>

lemmas urlparse_defs = urlparse_def urlsplit_def find_def find_from_def rfind_def
  splitnetloc_def splitparams_def lower_def uses_params_def scheme_chars_def
  ascii_lowercase_def ascii_uppercase_def WHATWG_C0_CONTROL_OR_SPACE_def
  UNSAFE_URL_BYTES_TO_REMOVE_def

lemma example_url_cache_name: "url_cache_name example_url = Inr ''python.tar.gz''"
  by (simp add: url_cache_name_def example_url_def urlparse_defs)

lemma example_dir_urlparse:
  "urlparse example_dir_url =
     Inr \<lparr>url_scheme = ''https'', url_netloc = ''example.com'', url_path = ''/files/'',
          url_params = [], url_query = [], url_fragment = []\<rparr>"
  by (simp add: example_dir_url_def urlparse_defs)

lemma example_mkdir: "mkdir (files empty_world) [''cache''] = Inr [[''cache''] \<mapsto> Dir]"
  by (simp add: empty_world_def mkdir.simps os_mkdir_def lookup_def)

lemma example_miss:
  "\<not> exists_path [[''cache''] \<mapsto> Dir] (joinpath [''cache''] ''python.tar.gz'')"
  by (simp add: exists_path_def lookup_def joinpath_def)

lemma cached_mkdir: "mkdir (files cached_world) [''cache''] = Inr (files cached_world)"
  by (rule mkdir_existing) (simp add: cached_world_def is_dir_def lookup_def)

lemma cached_hit: "exists_path (files cached_world) (joinpath [''cache''] ''python.tar.gz'')"
  by (simp add: cached_world_def exists_path_def lookup_def joinpath_def)

lemma example_first_fetch:
  "fst (download_url (serve (plain_response 200)) empty_world example_url [''cache''])
     = Inr [''cache'', ''python.tar.gz'']"
proof -
  have got: "serve (plain_response 200) example_url = Inr (plain_response 200)"
    by (simp add: serve_def)
  have op: "open_wb [[''cache''] \<mapsto> Dir] (joinpath [''cache''] ''python.tar.gz'')
              = Inr ([[''cache''] \<mapsto> Dir](joinpath [''cache''] ''python.tar.gz'' \<mapsto> File []))"
    by (rule open_wb_fresh [OF _ example_miss]) (simp add: is_dir_def lookup_def)
  show ?thesis
    unfolding download_url_miss [where requests_get = "serve (plain_response 200)",
        OF example_url_cache_name example_mkdir example_miss got] op
    by (simp add: plain_response_def save_body_def joinpath_def)
qed

text \<open>The URL with a parameter, fetched into the empty world and found in a cache.\<close>

lemma params_url_urlsplit:
  "urlsplit params_url = Inr (''https'', ''example.com'', ''/files/py.tar.gz;type=a'', ''q'', ''f'')"
  by (simp add: params_url_def urlparse_defs)

lemma params_url_cache_name: "url_cache_name params_url = Inr ''py.tar.gz''"
  by (simp add: url_cache_name_def params_url_def urlparse_defs)

lemma params_miss:
  "\<not> exists_path [[''cache''] \<mapsto> Dir] (joinpath [''cache''] ''py.tar.gz'')"
  by (simp add: exists_path_def lookup_def joinpath_def)

lemma params_first_fetch:
  "fst (download_url (serve (plain_response 200)) empty_world params_url [''cache''])
     = Inr [''cache'', ''py.tar.gz'']"
proof -
  have got: "serve (plain_response 200) params_url = Inr (plain_response 200)"
    by (simp add: serve_def)
  have op: "open_wb [[''cache''] \<mapsto> Dir] (joinpath [''cache''] ''py.tar.gz'')
              = Inr ([[''cache''] \<mapsto> Dir](joinpath [''cache''] ''py.tar.gz'' \<mapsto> File []))"
    by (rule open_wb_fresh [OF _ params_miss]) (simp add: is_dir_def lookup_def)
  show ?thesis
    unfolding download_url_miss [where requests_get = "serve (plain_response 200)",
        OF params_url_cache_name example_mkdir params_miss got] op
    by (simp add: plain_response_def save_body_def joinpath_def)
qed

lemma params_second_fetch:
  "fst (download_url (serve (plain_response 404))
          (empty_world\<lparr>files := [[''cache''] \<mapsto> Dir, [''cache'', ''py.tar.gz''] \<mapsto> File ''abc'']\<rparr>)
          params_url [''cache''])
     = Inr [''cache'', ''py.tar.gz'']"
proof -
  let ?w = "empty_world\<lparr>files := [[''cache''] \<mapsto> Dir, [''cache'', ''py.tar.gz''] \<mapsto> File ''abc'']\<rparr>"
  have mk: "mkdir (files ?w) [''cache''] = Inr (files ?w)"
    by (rule mkdir_existing) (simp add: is_dir_def lookup_def)
  have hit: "exists_path (files ?w) (joinpath [''cache''] ''py.tar.gz'')"
    by (simp add: exists_path_def lookup_def joinpath_def)
  show ?thesis
    by (simp add: download_url_hit [OF params_url_cache_name mk hit] joinpath_def)
qed

lemma str_nat_values: "str_nat 50 = ''50''" "str_nat 100 = ''100''" "str_nat 200 = ''200''"
  by (simp_all add: str_nat.simps)

lemma py_int_values: "py_int ''4'' = Some 4" "py_int ''1'' = Some 1"
  by (simp_all add: py_int_def strip_def is_space_def py_nat_def is_digit_def digit_val_def)


section \<open>Properties of download_url\<close>

text \<open>
  In the theorems of this section \<open>name\<close> is the cache name of the URL, \<open>fs1\<close> the
  file system that \<^verbatim>\<open>download_path.mkdir(parents=True, exist_ok=True)\<close> leaves, and
  \<open>joinpath d name\<close> the target \<^verbatim>\<open>filename\<close>. When the parsing of the URL or
  \<^verbatim>\<open>mkdir\<close> raises, \<^verbatim>\<open>download_url\<close> raises the same exception before it looks
  at the cache.
\<close>

text \<open>
  Claim C3. Let the target be absent, so that the request is sent, and let the request
  return a response. If its status is 404, \<^verbatim>\<open>download_url\<close> raises
  \<^verbatim>\<open>MissingNetworkResourceError\<close> with the URL. If its status is neither 404 nor
  200, it raises \<^verbatim>\<open>BadNetworkResourceError\<close> with the URL and the status. If its
  status is 200, it raises neither of the two.
\<close>

theorem download_url_status:
  assumes name: "url_cache_name url = Inr name"
    and dir: "mkdir (files w) d = Inr fs1"
    and miss: "\<not> exists_path fs1 (joinpath d name)"
    and got: "requests_get url = Inr response"
  shows "(status_code response = 404 \<longrightarrow>
            fst (download_url requests_get w url d) = Inl (MissingNetworkResourceError url)) \<and>
         (status_code response \<noteq> 404 \<and> status_code response \<noteq> 200 \<longrightarrow>
            fst (download_url requests_get w url d)
              = Inl (BadNetworkResourceError url (status_code response))) \<and>
         (status_code response = 200 \<longrightarrow>
            (\<forall>u. fst (download_url requests_get w url d) \<noteq> Inl (MissingNetworkResourceError u)) \<and>
            (\<forall>u s. fst (download_url requests_get w url d) \<noteq> Inl (BadNetworkResourceError u s)))"
proof -
  note eq = download_url_miss [where requests_get = requests_get, OF name dir miss got]
  have ok: "(\<forall>u. fst (download_url requests_get w url d) \<noteq> Inl (MissingNetworkResourceError u)) \<and>
            (\<forall>u s. fst (download_url requests_get w url d) \<noteq> Inl (BadNetworkResourceError u s))"
    if s: "status_code response = 200"
  proof -
    from mkdir_result [OF dir] have "is_dir fs1 d" by simp
    from open_wb_fresh [OF this miss]
    have op: "open_wb fs1 (joinpath d name) = Inr (fs1(joinpath d name \<mapsto> File []))" .
    obtain r w4 where sb: "save_body response (joinpath d name)
        (w\<lparr>requests_sent := requests_sent w @ [url], files := fs1(joinpath d name \<mapsto> File [])\<rparr>) = (r, w4)"
      by (cases "save_body response (joinpath d name)
        (w\<lparr>requests_sent := requests_sent w @ [url], files := fs1(joinpath d name \<mapsto> File [])\<rparr>)") auto
    show ?thesis
    proof (cases r)
      case (Inl e)
      with sb save_body_error have "e = ZeroDivisionError \<or> e = ValueError ''invalid literal for int() with base 10''"
        by blast
      with Inl sb s op show ?thesis by (auto simp: eq)
    next
      case (Inr u)
      with sb s op show ?thesis by (simp add: eq)
    qed
  qed
  show ?thesis
    using ok by (auto simp: eq)
qed

text \<open>
  The theorem in the empty world, at the responses with the statuses 404, 500 and 200.
\<close>

theorem download_url_status_witness:
  "url_cache_name example_url = Inr ''python.tar.gz'' \<and>
   mkdir (files empty_world) [''cache''] = Inr [[''cache''] \<mapsto> Dir] \<and>
   \<not> exists_path [[''cache''] \<mapsto> Dir] (joinpath [''cache''] ''python.tar.gz'') \<and>
   serve (plain_response 404) example_url = Inr (plain_response 404) \<and>
   status_code (plain_response 404) = 404 \<and>
   fst (download_url (serve (plain_response 404)) empty_world example_url [''cache''])
     = Inl (MissingNetworkResourceError example_url) \<and>
   status_code (plain_response 500) = 500 \<and>
   fst (download_url (serve (plain_response 500)) empty_world example_url [''cache''])
     = Inl (BadNetworkResourceError example_url 500) \<and>
   status_code (plain_response 200) = 200 \<and>
   (\<forall>u. fst (download_url (serve (plain_response 200)) empty_world example_url [''cache''])
          \<noteq> Inl (MissingNetworkResourceError u)) \<and>
   (\<forall>u s. fst (download_url (serve (plain_response 200)) empty_world example_url [''cache''])
          \<noteq> Inl (BadNetworkResourceError u s))"
proof -
  have got: "serve (plain_response s) example_url = Inr (plain_response s)" for s
    by (simp add: serve_def)
  have st: "status_code (plain_response s) = s" for s
    by (simp add: plain_response_def)
  from download_url_status [where requests_get = "serve (plain_response 404)",
      OF example_url_cache_name example_mkdir example_miss got]
  have a: "fst (download_url (serve (plain_response 404)) empty_world example_url
      [''cache'']) = Inl (MissingNetworkResourceError example_url)"
    by (simp add: st)
  from download_url_status [where requests_get = "serve (plain_response 500)",
      OF example_url_cache_name example_mkdir example_miss got]
  have b: "fst (download_url (serve (plain_response 500)) empty_world example_url
      [''cache'']) = Inl (BadNetworkResourceError example_url 500)"
    by (simp add: st)
  from download_url_status [where requests_get = "serve (plain_response 200)",
      OF example_url_cache_name example_mkdir example_miss got]
  have c: "(\<forall>u. fst (download_url (serve (plain_response 200)) empty_world example_url [''cache''])
          \<noteq> Inl (MissingNetworkResourceError u)) \<and>
   (\<forall>u s. fst (download_url (serve (plain_response 200)) empty_world example_url [''cache''])
          \<noteq> Inl (BadNetworkResourceError u s))"
    by (simp add: st)
  from a b c example_url_cache_name example_mkdir example_miss got [of 404] st
  show ?thesis by simp
qed

text \<open>
  Claim C4. Let the target exist when \<^verbatim>\<open>download_url\<close> is called. Then the call
  returns the target, prints \<^verbatim>\<open><cache_name> already downloaded\<close> and sends no
  request: the requests sent are those sent before, whatever the client is. And after any
  call that has returned a path \<open>p\<close>, a second call for the same URL and directory
  returns \<open>p\<close>, prints the notice and changes nothing else, so it sends no request and
  writes no file.
\<close>

theorem download_url_cached:
  assumes name: "url_cache_name url = Inr name"
    and dir: "mkdir (files w) d = Inr fs1"
    and hit: "exists_path (files w) (joinpath d name)"
    and first: "download_url get1 w0 url d = (Inr p, w1)"
  shows "download_url requests_get w url d
           = (Inr (joinpath d name),
              w\<lparr>files := fs1,
                 stdout := stdout w @ text_of (name @ '' already downloaded'') @ newline\<rparr>)
       \<and> requests_sent (snd (download_url requests_get w url d)) = requests_sent w
       \<and> download_url get2 w1 url d
           = (Inr p, w1\<lparr>stdout := stdout w1 @ text_of (name @ '' already downloaded'') @ newline\<rparr>)"
proof -
  from mkdir_result [OF dir] have "adds_dirs (files w) fs1" by simp
  from adds_dirs_exists [OF this hit] have "exists_path fs1 (joinpath d name)" .
  from download_url_hit [OF name dir this, of requests_get]
  have one: "download_url requests_get w url d
           = (Inr (joinpath d name),
              w\<lparr>files := fs1,
                 stdout := stdout w @ text_of (name @ '' already downloaded'') @ newline\<rparr>)" .
  from download_url_success_state [OF first] name
  have p: "p = joinpath d name" and isd: "is_dir (files w1) d" and ex: "exists_path (files w1) p"
    by auto
  from mkdir_existing [OF isd] have "mkdir (files w1) d = Inr (files w1)" .
  from download_url_hit [OF name this, of get2] ex p
  have two: "download_url get2 w1 url d
           = (Inr p, w1\<lparr>stdout := stdout w1 @ text_of (name @ '' already downloaded'') @ newline\<rparr>)"
    by simp
  from one two show ?thesis by simp
qed

text \<open>
  The theorem in the world whose cache holds the file, and after a first call that
  downloads the file into the empty world. The client of the second call answers 404 to
  every request: it is not asked.
\<close>

theorem download_url_cached_witness:
  "url_cache_name example_url = Inr ''python.tar.gz'' \<and>
   mkdir (files cached_world) [''cache''] = Inr (files cached_world) \<and>
   exists_path (files cached_world) (joinpath [''cache''] ''python.tar.gz'') \<and>
   fst (download_url (serve (plain_response 200)) empty_world example_url [''cache''])
     = Inr [''cache'', ''python.tar.gz''] \<and>
   download_url (serve (plain_response 404)) cached_world example_url [''cache'']
     = (Inr (joinpath [''cache''] ''python.tar.gz''),
        cached_world\<lparr>files := files cached_world,
           stdout := stdout cached_world
             @ text_of (''python.tar.gz'' @ '' already downloaded'') @ newline\<rparr>) \<and>
   requests_sent (snd (download_url (serve (plain_response 404)) cached_world example_url
     [''cache''])) = [] \<and>
   fst (download_url (serve (plain_response 404))
          (snd (download_url (serve (plain_response 200)) empty_world example_url [''cache'']))
          example_url [''cache''])
     = Inr [''cache'', ''python.tar.gz''] \<and>
   requests_sent (snd (download_url (serve (plain_response 404))
          (snd (download_url (serve (plain_response 200)) empty_world example_url [''cache'']))
          example_url [''cache'']))
     = requests_sent (snd (download_url (serve (plain_response 200)) empty_world example_url
         [''cache'']))"
proof -
  let ?first = "download_url (serve (plain_response 200)) empty_world example_url [''cache'']"
  have first: "?first = (Inr [''cache'', ''python.tar.gz''], snd ?first)"
    using example_first_fetch by (metis prod.collapse)
  note t = download_url_cached [where requests_get = "serve (plain_response 404)"
      and ?get1.0 = "serve (plain_response 200)" and ?get2.0 = "serve (plain_response 404)",
      OF example_url_cache_name cached_mkdir cached_hit first]
  from t have one: "download_url (serve (plain_response 404)) cached_world example_url [''cache'']
     = (Inr (joinpath [''cache''] ''python.tar.gz''),
        cached_world\<lparr>files := files cached_world,
           stdout := stdout cached_world
             @ text_of (''python.tar.gz'' @ '' already downloaded'') @ newline\<rparr>)"
    by (rule conjunct1)
  from t have two: "requests_sent (snd (download_url (serve (plain_response 404)) cached_world
      example_url [''cache''])) = []"
    by (simp add: cached_world_def)
  from t have three: "download_url (serve (plain_response 404)) (snd ?first) example_url [''cache'']
      = (Inr [''cache'', ''python.tar.gz''],
         (snd ?first)\<lparr>stdout := stdout (snd ?first)
            @ text_of (''python.tar.gz'' @ '' already downloaded'') @ newline\<rparr>)"
    by (rule conjunct2 [THEN conjunct2])
  from three have four: "fst (download_url (serve (plain_response 404)) (snd ?first) example_url
      [''cache'']) = Inr [''cache'', ''python.tar.gz'']"
    and five: "requests_sent (snd (download_url (serve (plain_response 404)) (snd ?first)
      example_url [''cache''])) = requests_sent (snd ?first)"
    by simp_all
  from example_url_cache_name cached_mkdir cached_hit example_first_fetch one two four five
  show ?thesis by blast
qed

text \<open>
  Claim C5, as the code has it. The path that \<^verbatim>\<open>download_url\<close> returns depends on
  the URL and the directory alone: two calls with the same URL and directory that return,
  in whatever worlds and with whatever clients, return the same path. The URL, stripped of
  its leading blanks and of its tabs and line ends, is the scheme with its colon (or
  nothing), then two slashes with the network location (or nothing), then a rest; the
  path of the URL is this rest up to its first question mark or hash, so without the
  query and the fragment. The path returned is the directory joined with the last segment
  of the path of the URL; for the schemes whose URLs take parameters, \<^verbatim>\<open>https\<close>
  among them, the segment ends before its first semicolon.
\<close>

theorem download_url_path:
  assumes "download_url get1 w1 url d = (Inr p1, w1')"
    and "download_url get2 w2 url d = (Inr p2, w2')"
  shows "p1 = p2 \<and>
         (\<exists>scheme netloc upath query fragment s n rest.
            urlsplit url = Inr (scheme, netloc, upath, query, fragment)
            \<and> filter (\<lambda>c. c \<notin> set UNSAFE_URL_BYTES_TO_REMOVE)
                 (dropWhile WHATWG_C0_CONTROL_OR_SPACE url) = s @ n @ rest
            \<and> (s = [] \<and> scheme = [] \<or> (\<exists>sch. s = sch @ '':'' \<and> scheme = lower sch))
            \<and> (n = [] \<and> netloc = [] \<or> n = ''//'' @ netloc)
            \<and> upath = takeWhile (\<lambda>c. c \<noteq> CHR ''?'' \<and> c \<noteq> CHR ''#'') rest
            \<and> p1 = joinpath d
                 (if scheme \<in> set uses_params
                  then takeWhile (\<lambda>c. c \<noteq> CHR '';'') (last (str_split CHR ''/'' upath))
                  else last (str_split CHR ''/'' upath)))"
proof -
  from download_url_returns_path [OF assms(1)] obtain name1
    where n1: "url_cache_name url = Inr name1" and p1: "p1 = joinpath d name1" by blast
  from download_url_returns_path [OF assms(2)] obtain name2
    where n2: "url_cache_name url = Inr name2" and p2: "p2 = joinpath d name2" by blast
  from n1 n2 p1 p2 have same: "p1 = p2" by simp
  from url_cache_name_segment [OF n1] obtain scheme netloc upath query fragment
    where sp: "urlsplit url = Inr (scheme, netloc, upath, query, fragment)"
      and nm: "name1 = (if scheme \<in> set uses_params
                    then takeWhile (\<lambda>c. c \<noteq> CHR '';'') (last (str_split CHR ''/'' upath))
                    else last (str_split CHR ''/'' upath))"
    by blast
  from urlsplit_decompose [OF sp] obtain s n rest
    where "filter (\<lambda>c. c \<notin> set UNSAFE_URL_BYTES_TO_REMOVE)
                 (dropWhile WHATWG_C0_CONTROL_OR_SPACE url) = s @ n @ rest"
      and "s = [] \<and> scheme = [] \<or> (\<exists>sch. s = sch @ '':'' \<and> scheme = lower sch)"
      and "n = [] \<and> netloc = [] \<or> n = ''//'' @ netloc"
      and "upath = takeWhile (\<lambda>c. c \<noteq> CHR ''?'' \<and> c \<noteq> CHR ''#'') rest"
    by blast
  with sp nm p1 same show ?thesis by blast
qed

text \<open>
  The theorem at a download into the empty world and a call in a world whose cache holds
  the file, for the URL
  \<^verbatim>\<open>https://example.com/files/py.tar.gz;type=a?q#f\<close>: both return
  \<^verbatim>\<open>cache/py.tar.gz\<close>.
\<close>

theorem download_url_path_witness:
  "fst (download_url (serve (plain_response 200)) empty_world params_url [''cache''])
     = Inr [''cache'', ''py.tar.gz''] \<and>
   fst (download_url (serve (plain_response 404))
          (empty_world\<lparr>files := [[''cache''] \<mapsto> Dir, [''cache'', ''py.tar.gz''] \<mapsto> File ''abc'']\<rparr>)
          params_url [''cache''])
     = Inr [''cache'', ''py.tar.gz''] \<and>
   urlsplit params_url
     = Inr (''https'', ''example.com'', ''/files/py.tar.gz;type=a'', ''q'', ''f'') \<and>
   ''https'' \<in> set uses_params \<and>
   (\<exists>scheme netloc upath query fragment s n rest.
      urlsplit params_url = Inr (scheme, netloc, upath, query, fragment)
      \<and> filter (\<lambda>c. c \<notin> set UNSAFE_URL_BYTES_TO_REMOVE)
           (dropWhile WHATWG_C0_CONTROL_OR_SPACE params_url) = s @ n @ rest
      \<and> (s = [] \<and> scheme = [] \<or> (\<exists>sch. s = sch @ '':'' \<and> scheme = lower sch))
      \<and> (n = [] \<and> netloc = [] \<or> n = ''//'' @ netloc)
      \<and> upath = takeWhile (\<lambda>c. c \<noteq> CHR ''?'' \<and> c \<noteq> CHR ''#'') rest
      \<and> [''cache'', ''py.tar.gz''] = joinpath [''cache'']
           (if scheme \<in> set uses_params
            then takeWhile (\<lambda>c. c \<noteq> CHR '';'') (last (str_split CHR ''/'' upath))
            else last (str_split CHR ''/'' upath)))"
proof -
  let ?first = "download_url (serve (plain_response 200)) empty_world params_url [''cache'']"
  let ?second = "download_url (serve (plain_response 404))
          (empty_world\<lparr>files := [[''cache''] \<mapsto> Dir, [''cache'', ''py.tar.gz''] \<mapsto> File ''abc'']\<rparr>)
          params_url [''cache'']"
  have first: "?first = (Inr [''cache'', ''py.tar.gz''], snd ?first)"
    using params_first_fetch by (metis prod.collapse)
  have second: "?second = (Inr [''cache'', ''py.tar.gz''], snd ?second)"
    using params_second_fetch by (metis prod.collapse)
  have "''https'' \<in> set uses_params" by (simp add: uses_params_def)
  with download_url_path [OF first second] params_first_fetch params_second_fetch
    params_url_urlsplit
  show ?thesis by blast
qed

text \<open>
  Claim C5 as it is stated fails on a segment with a parameter. Without its query and its
  fragment the URL \<^verbatim>\<open>https://example.com/files/py.tar.gz;type=a?q#f\<close> ends in the
  segment \<^verbatim>\<open>py.tar.gz;type=a\<close>, while \<^verbatim>\<open>download_url\<close> returns
  \<^verbatim>\<open>cache/py.tar.gz\<close>.
\<close>

theorem download_url_path_counterexample:
  "spec_cache_name params_url = Inr ''py.tar.gz;type=a'' \<and>
   fst (download_url (serve (plain_response 200)) empty_world params_url [''cache''])
     = Inr [''cache'', ''py.tar.gz''] \<and>
   joinpath [''cache''] ''py.tar.gz;type=a'' = [''cache'', ''py.tar.gz;type=a''] \<and>
   [''cache'', ''py.tar.gz''] \<noteq> [''cache'', ''py.tar.gz;type=a'']"
proof -
  have "spec_cache_name params_url = Inr ''py.tar.gz;type=a''"
    by (simp add: spec_cache_name_def params_url_urlsplit)
  with params_first_fetch show ?thesis by (simp add: joinpath_def)
qed

text \<open>
  Claim C9. Let the target be absent and let the request return a response whose status
  is not 200. Then \<^verbatim>\<open>download_url\<close> raises \<^verbatim>\<open>MissingNetworkResourceError\<close> or
  \<^verbatim>\<open>BadNetworkResourceError\<close>, and the file system it leaves is the one that
  \<^verbatim>\<open>mkdir\<close> left: the target is absent as it was before the call, and the files are
  those that were there before the call, with the content they had.
\<close>

theorem download_url_http_error:
  assumes name: "url_cache_name url = Inr name"
    and dir: "mkdir (files w) d = Inr fs1"
    and miss: "\<not> exists_path fs1 (joinpath d name)"
    and got: "requests_get url = Inr response"
    and status: "status_code response \<noteq> 200"
  shows "\<exists>e. download_url requests_get w url d
              = (Inl e, w\<lparr>requests_sent := requests_sent w @ [url], files := fs1\<rparr>)
           \<and> (e = MissingNetworkResourceError url
                \<or> e = BadNetworkResourceError url (status_code response))
           \<and> lookup fs1 (joinpath d name) = None
           \<and> lookup (files w) (joinpath d name) = None
           \<and> (\<forall>q b. (fs1 q = Some (File b)) = (files w q = Some (File b)))"
proof -
  from mkdir_result [OF dir] have ad: "adds_dirs (files w) fs1" by simp
  from miss have absent: "lookup fs1 (joinpath d name) = None"
    by (simp add: exists_path_def)
  from adds_dirs_absent [OF ad absent] have before: "lookup (files w) (joinpath d name) = None" .
  from adds_dirs_files [OF ad]
  have same: "\<forall>q b. (fs1 q = Some (File b)) = (files w q = Some (File b))" by blast
  from status absent before same show ?thesis
    by (auto simp: download_url_miss [where requests_get = requests_get, OF name dir miss got])
qed

text \<open>The theorem in the empty world, at the response with the status 404.\<close>

theorem download_url_http_error_witness:
  "url_cache_name example_url = Inr ''python.tar.gz'' \<and>
   mkdir (files empty_world) [''cache''] = Inr [[''cache''] \<mapsto> Dir] \<and>
   \<not> exists_path [[''cache''] \<mapsto> Dir] (joinpath [''cache''] ''python.tar.gz'') \<and>
   serve (plain_response 404) example_url = Inr (plain_response 404) \<and>
   status_code (plain_response 404) \<noteq> 200 \<and>
   (\<exists>e. download_url (serve (plain_response 404)) empty_world example_url [''cache'']
          = (Inl e, empty_world\<lparr>requests_sent := requests_sent empty_world @ [example_url],
                                  files := [[''cache''] \<mapsto> Dir]\<rparr>)
        \<and> (e = MissingNetworkResourceError example_url
             \<or> e = BadNetworkResourceError example_url (status_code (plain_response 404)))
        \<and> lookup [[''cache''] \<mapsto> Dir] (joinpath [''cache''] ''python.tar.gz'') = None
        \<and> lookup (files empty_world) (joinpath [''cache''] ''python.tar.gz'') = None
        \<and> (\<forall>q b. ([[''cache''] \<mapsto> Dir] q = Some (File b))
                  = (files empty_world q = Some (File b))))"
proof -
  have got: "serve (plain_response 404) example_url = Inr (plain_response 404)"
    by (simp add: serve_def)
  have st: "status_code (plain_response 404) \<noteq> 200"
    by (simp add: plain_response_def)
  from download_url_http_error [where requests_get = "serve (plain_response 404)",
      OF example_url_cache_name example_mkdir example_miss got st]
    example_url_cache_name example_mkdir example_miss got st
  show ?thesis by blast
qed

text \<open>
  Claim C10. Let the path that \<^verbatim>\<open>urlparse\<close> finds in the URL end with a slash, and
  let \<^verbatim>\<open>mkdir\<close> succeed. Then the cache name is empty and the target is the cache
  directory itself, which exists after \<^verbatim>\<open>mkdir\<close>. So \<^verbatim>\<open>download_url\<close> returns the
  cache directory and prints the notice with an empty name; it sends no request, and it
  writes no file: the files are those that were there before the call, with the content
  they had.
\<close>

theorem download_url_trailing_slash:
  assumes parsed: "urlparse url = Inr parsed"
    and nonempty: "url_path parsed \<noteq> []"
    and slash: "last (url_path parsed) = CHR ''/''"
    and dir: "mkdir (files w) d = Inr fs1"
  shows "url_cache_name url = Inr [] \<and> joinpath d [] = d \<and> exists_path fs1 d
       \<and> download_url requests_get w url d
           = (Inr d, w\<lparr>files := fs1,
                         stdout := stdout w @ text_of '' already downloaded'' @ newline\<rparr>)
       \<and> requests_sent (snd (download_url requests_get w url d)) = requests_sent w
       \<and> (\<forall>q b. (fs1 q = Some (File b)) = (files w q = Some (File b)))"
proof -
  from last_str_split_trailing [OF nonempty slash] parsed
  have name: "url_cache_name url = Inr []"
    by (simp add: url_cache_name_def)
  have j: "joinpath d [] = d" by (simp add: joinpath_def)
  from mkdir_result [OF dir] have isd: "is_dir fs1 d" and ad: "adds_dirs (files w) fs1"
    by simp_all
  from isd have ex: "exists_path fs1 d" by (simp add: is_dir_def exists_path_def)
  then have "exists_path fs1 (joinpath d [])" by (simp add: j)
  from download_url_hit [OF name dir this, of requests_get]
  have dl: "download_url requests_get w url d
           = (Inr d, w\<lparr>files := fs1,
                         stdout := stdout w @ text_of '' already downloaded'' @ newline\<rparr>)"
    by (simp add: j)
  from adds_dirs_files [OF ad]
  have "\<forall>q b. (fs1 q = Some (File b)) = (files w q = Some (File b))" by blast
  with name j ex dl show ?thesis by simp
qed

text \<open>
  The theorem at \<^verbatim>\<open>https://example.com/files/\<close> in the empty world. The client
  answers 404 to every request: it is not asked.
\<close>

theorem download_url_trailing_slash_witness:
  "urlparse example_dir_url =
     Inr \<lparr>url_scheme = ''https'', url_netloc = ''example.com'', url_path = ''/files/'',
          url_params = [], url_query = [], url_fragment = []\<rparr> \<and>
   ''/files/'' \<noteq> [] \<and> last ''/files/'' = CHR ''/'' \<and>
   mkdir (files empty_world) [''cache''] = Inr [[''cache''] \<mapsto> Dir] \<and>
   url_cache_name example_dir_url = Inr [] \<and>
   download_url (serve (plain_response 404)) empty_world example_dir_url [''cache'']
     = (Inr [''cache''],
        empty_world\<lparr>files := [[''cache''] \<mapsto> Dir],
           stdout := stdout empty_world @ text_of '' already downloaded'' @ newline\<rparr>) \<and>
   requests_sent (snd (download_url (serve (plain_response 404)) empty_world example_dir_url
     [''cache''])) = requests_sent empty_world"
proof -
  let ?parsed = "\<lparr>url_scheme = ''https'', url_netloc = ''example.com'', url_path = ''/files/'',
          url_params = [], url_query = [], url_fragment = []\<rparr>"
  have ne: "url_path ?parsed \<noteq> []" and sl: "last (url_path ?parsed) = CHR ''/''"
    by simp_all
  from download_url_trailing_slash [where requests_get = "serve (plain_response 404)",
      OF example_dir_urlparse ne sl example_mkdir]
    example_dir_urlparse example_mkdir
  show ?thesis by simp
qed

text \<open>
  Claim C7, as the code has it. Let the target be absent and let the request return a
  response with the status 200. Without a \<^verbatim>\<open>content-length\<close> header the file
  receives \<^verbatim>\<open>response.content\<close> in one write and the only output is the final
  newline. With a header that \<^verbatim>\<open>int\<close> reads as a number \<open>total_bytes > 0\<close>, the
  chunks are those of \<^verbatim>\<open>iter_content\<close> at the chunk size 1,048,576; let them hold
  no more than \<open>total_bytes\<close> bytes together, and let \<open>50 * total_bytes < 2 ^ 52\<close>, so
  that the division in floating point is exact enough. Then the file receives the chunks
  in their order, and the output is one line for each chunk followed by the newline: with
  \<open>t\<close> the bytes written up to this chunk and \<open>done = \<lfloor>50 * t / total_bytes\<rfloor>\<close>, the
  line is a carriage return, \<open>done\<close> full blocks, \<open>50 - done\<close> dots, a space,
  \<open>2 * done\<close> and a percent sign. Here \<open>0 \<le> done \<le> 50\<close>, so that the bar is 50 wide.
\<close>

theorem download_url_progress:
  assumes name: "url_cache_name url = Inr name"
    and dir: "mkdir (files w) d = Inr fs1"
    and miss: "\<not> exists_path fs1 (joinpath d name)"
    and got: "requests_get url = Inr response"
    and ok: "status_code response = 200"
  shows
   "(content_length response = None \<longrightarrow>
       download_url requests_get w url d =
         (Inr (joinpath d name),
          w\<lparr>requests_sent := requests_sent w @ [url],
             files := fs1(joinpath d name \<mapsto> File (content response)),
             stdout := stdout w @ newline\<rparr>))
    \<and> (\<forall>header total_bytes.
         content_length response = Some header \<and> py_int header = Some total_bytes
         \<and> 0 < total_bytes \<and> 50 * total_bytes < 2 ^ 52
         \<and> int (length (concat (iter_content response 1048576))) \<le> total_bytes \<longrightarrow>
         download_url requests_get w url d =
           (Inr (joinpath d name),
            w\<lparr>requests_sent := requests_sent w @ [url],
               files := fs1(joinpath d name \<mapsto> File (concat (iter_content response 1048576))),
               stdout := stdout w
                 @ concat (map (\<lambda>t. progress_line ((50 * t) div total_bytes))
                             (running_totals 0 (iter_content response 1048576)))
                 @ newline\<rparr>)
         \<and> (\<forall>t \<in> set (running_totals 0 (iter_content response 1048576)).
              0 \<le> (50 * t) div total_bytes \<and> (50 * t) div total_bytes \<le> 50
              \<and> length (progress_bar ((50 * t) div total_bytes)) = 50
              \<and> progress_line ((50 * t) div total_bytes) =
                  [Ch (CHR 0x0D)] @ replicate (nat ((50 * t) div total_bytes)) FULL_BLOCK
                    @ replicate (50 - nat ((50 * t) div total_bytes)) (Ch CHR ''.'')
                    @ text_of ('' '' @ str_nat (2 * nat ((50 * t) div total_bytes)) @ ''%'')))"
proof -
  let ?f = "joinpath d name"
  let ?w3 = "w\<lparr>requests_sent := requests_sent w @ [url], files := fs1(?f \<mapsto> File [])\<rparr>"
  from mkdir_result [OF dir] have "is_dir fs1 d" by simp
  from open_wb_fresh [OF this miss]
  have op: "open_wb fs1 ?f = Inr (fs1(?f \<mapsto> File []))" .
  have eq: "download_url requests_get w url d =
      (case save_body response ?f ?w3 of
         (Inl e, w4) \<Rightarrow> (Inl e, w4)
       | (Inr u, w4) \<Rightarrow> (Inr ?f, w4\<lparr>stdout := stdout w4 @ newline\<rparr>))"
    using ok op by (simp add: download_url_miss [where requests_get = requests_get, OF name dir miss got])
  have empty: "files ?w3 ?f = Some (File [])" by simp
  have part1: "download_url requests_get w url d =
         (Inr ?f,
          w\<lparr>requests_sent := requests_sent w @ [url],
             files := fs1(?f \<mapsto> File (content response)),
             stdout := stdout w @ newline\<rparr>)"
    if "content_length response = None"
    unfolding eq save_body_no_length [OF that empty] by simp
  have part2: "download_url requests_get w url d =
           (Inr ?f,
            w\<lparr>requests_sent := requests_sent w @ [url],
               files := fs1(?f \<mapsto> File (concat (iter_content response 1048576))),
               stdout := stdout w
                 @ concat (map (\<lambda>t. progress_line ((50 * t) div total_bytes))
                             (running_totals 0 (iter_content response 1048576)))
                 @ newline\<rparr>)"
    if "content_length response = Some header" "py_int header = Some total_bytes"
       "0 < total_bytes" "int (length (concat (iter_content response 1048576))) \<le> total_bytes"
    for header total_bytes
    unfolding eq save_body_length [OF that(1,2,3) empty that(4)] by simp
  have part3: "0 \<le> (50 * t) div total_bytes \<and> (50 * t) div total_bytes \<le> 50
              \<and> length (progress_bar ((50 * t) div total_bytes)) = 50
              \<and> progress_line ((50 * t) div total_bytes) =
                  [Ch (CHR 0x0D)] @ replicate (nat ((50 * t) div total_bytes)) FULL_BLOCK
                    @ replicate (50 - nat ((50 * t) div total_bytes)) (Ch CHR ''.'')
                    @ text_of ('' '' @ str_nat (2 * nat ((50 * t) div total_bytes)) @ ''%'')"
    if "0 < total_bytes" "int (length (concat (iter_content response 1048576))) \<le> total_bytes"
       "t \<in> set (running_totals 0 (iter_content response 1048576))"
    for total_bytes t
  proof -
    from running_totals_bounds [OF that(3)] that(2) have "0 \<le> t" "t \<le> total_bytes" by simp_all
    from done_bounds [OF this that(1)]
    have b: "0 \<le> (50 * t) div total_bytes" "(50 * t) div total_bytes \<le> 50" by simp_all
    from b progress_bar_width [OF b] progress_line_shape [OF b] show ?thesis by simp
  qed
  show ?thesis
    using part1 part2 part3 by blast
qed

text \<open>
  The theorem in the empty world: at a response without the header, and at a response
  that announces 4 bytes and yields two chunks of 2 bytes, for which the lines show 25
  and 50 blocks.
\<close>

theorem download_url_progress_witness:
  "url_cache_name example_url = Inr ''python.tar.gz'' \<and>
   mkdir (files empty_world) [''cache''] = Inr [[''cache''] \<mapsto> Dir] \<and>
   \<not> exists_path [[''cache''] \<mapsto> Dir] (joinpath [''cache''] ''python.tar.gz'') \<and>
   status_code (plain_response 200) = 200 \<and>
   content_length (plain_response 200) = None \<and>
   download_url (serve (plain_response 200)) empty_world example_url [''cache'']
     = (Inr [''cache'', ''python.tar.gz''],
        \<lparr>files = [[''cache''] \<mapsto> Dir, [''cache'', ''python.tar.gz''] \<mapsto> File ''abcd''],
         stdout = newline, requests_sent = [example_url]\<rparr>) \<and>
   status_code (sized_response ''4'' [''ab'', ''cd'']) = 200 \<and>
   content_length (sized_response ''4'' [''ab'', ''cd'']) = Some ''4'' \<and>
   py_int ''4'' = Some 4 \<and> (0::int) < 4 \<and> (50::int) * 4 < 2 ^ 52 \<and>
   int (length (concat (iter_content (sized_response ''4'' [''ab'', ''cd'']) 1048576))) \<le> 4 \<and>
   download_url (serve (sized_response ''4'' [''ab'', ''cd''])) empty_world example_url [''cache'']
     = (Inr [''cache'', ''python.tar.gz''],
        \<lparr>files = [[''cache''] \<mapsto> Dir, [''cache'', ''python.tar.gz''] \<mapsto> File ''abcd''],
         stdout = progress_line 25 @ progress_line 50 @ newline,
         requests_sent = [example_url]\<rparr>) \<and>
   length (progress_bar 25) = 50 \<and>
   progress_line 25 =
     [Ch (CHR 0x0D)] @ replicate 25 FULL_BLOCK @ replicate 25 (Ch CHR ''.'') @ text_of '' 50%'' \<and>
   progress_line 50 =
     [Ch (CHR 0x0D)] @ replicate 50 FULL_BLOCK @ text_of '' 100%''"
proof -
  let ?plain = "plain_response 200"
  let ?sized = "sized_response ''4'' [''ab'', ''cd'']"
  have got: "serve r example_url = Inr r" for r
    by (simp add: serve_def)
  have jp: "joinpath [''cache''] ''python.tar.gz'' = [''cache'', ''python.tar.gz'']"
    by (simp add: joinpath_def)
  have st1: "status_code ?plain = 200" and cl1: "content_length ?plain = None"
    by (simp_all add: plain_response_def)
  have st2: "status_code ?sized = 200" and cl2: "content_length ?sized = Some ''4''"
    and it: "iter_content ?sized 1048576 = [''ab'', ''cd'']"
    by (simp_all add: sized_response_def)
  have len: "int (length (concat (iter_content ?sized 1048576))) \<le> 4"
    by (simp add: it)
  have small: "(50::int) * 4 < 2 ^ 52" by simp
  note t1 = download_url_progress [where requests_get = "serve ?plain",
      OF example_url_cache_name example_mkdir example_miss got st1]
  note t2 = download_url_progress [where requests_get = "serve ?sized",
      OF example_url_cache_name example_mkdir example_miss got st2]
  from t1 cl1 have one: "download_url (serve ?plain) empty_world example_url [''cache'']
     = (Inr [''cache'', ''python.tar.gz''],
        \<lparr>files = [[''cache''] \<mapsto> Dir, [''cache'', ''python.tar.gz''] \<mapsto> File ''abcd''],
         stdout = newline, requests_sent = [example_url]\<rparr>)"
    by (simp add: jp empty_world_def plain_response_def)
  have hyp: "content_length ?sized = Some ''4'' \<and> py_int ''4'' = Some 4
      \<and> (0::int) < 4 \<and> (50::int) * 4 < 2 ^ 52
      \<and> int (length (concat (iter_content ?sized 1048576))) \<le> 4"
    using cl2 py_int_values(1) len by simp
  note t2' = t2 [THEN conjunct2, THEN spec, THEN spec, THEN mp, OF hyp]
  from t2' have two: "download_url (serve ?sized) empty_world example_url [''cache'']
     = (Inr [''cache'', ''python.tar.gz''],
        \<lparr>files = [[''cache''] \<mapsto> Dir, [''cache'', ''python.tar.gz''] \<mapsto> File ''abcd''],
         stdout = progress_line 25 @ progress_line 50 @ newline,
         requests_sent = [example_url]\<rparr>)"
    by (simp add: jp it empty_world_def)
  from t2' have lines: "length (progress_bar 25) = 50"
    "progress_line 25 = [Ch (CHR 0x0D)] @ replicate 25 FULL_BLOCK @ replicate 25 (Ch CHR ''.'')
        @ text_of '' 50%''"
    "progress_line 50 = [Ch (CHR 0x0D)] @ replicate 50 FULL_BLOCK @ text_of '' 100%''"
    by (simp_all add: it str_nat_values)
  from example_url_cache_name example_mkdir example_miss st1 cl1 one st2 cl2 py_int_values(1)
    len small two lines
  show ?thesis by simp
qed

text \<open>
  Claim C7 as it is stated fails when the chunks hold more bytes than the header
  announces, as they do when the body is compressed: the header counts the bytes sent and
  \<^verbatim>\<open>iter_content\<close> yields the bytes decoded. For a response that announces 1 byte
  and yields one chunk of 2 bytes, \<open>done\<close> is 100: the line printed has 100 full blocks
  and no dot, so the bar is 100 wide and not 50, and the percentage shown is 200.
\<close>

theorem download_url_progress_counterexample:
  "status_code (sized_response ''1'' [''ab'']) = 200 \<and>
   content_length (sized_response ''1'' [''ab'']) = Some ''1'' \<and>
   py_int ''1'' = Some 1 \<and>
   iter_content (sized_response ''1'' [''ab'']) (1024 * 1024) = [''ab''] \<and>
   fst (download_url (serve (sized_response ''1'' [''ab''])) empty_world example_url [''cache''])
     = Inr [''cache'', ''python.tar.gz''] \<and>
   stdout (snd (download_url (serve (sized_response ''1'' [''ab''])) empty_world example_url
     [''cache'']))
     = [Ch (CHR 0x0D)] @ replicate 100 FULL_BLOCK @ text_of '' 200%'' @ newline \<and>
   length (progress_bar (int_truediv (50 * 2) 1)) = 100"
proof -
  let ?r = "sized_response ''1'' [''ab'']"
  have got: "serve ?r example_url = Inr ?r"
    by (simp add: serve_def)
  have op: "open_wb [[''cache''] \<mapsto> Dir] (joinpath [''cache''] ''python.tar.gz'')
              = Inr ([[''cache''] \<mapsto> Dir](joinpath [''cache''] ''python.tar.gz'' \<mapsto> File []))"
    by (rule open_wb_fresh [OF _ example_miss]) (simp add: is_dir_def lookup_def)
  have st: "status_code ?r = 200"
    by (simp add: sized_response_def)
  have d: "int_truediv (50 * 2) 1 = 100" "int_truediv 100 1 = 100"
    by (simp_all add: int_truediv_def)
  have line: "progress_line 100 = [Ch (CHR 0x0D)] @ replicate 100 FULL_BLOCK @ text_of '' 200%''"
    by (simp add: progress_line_def progress_bar_def str_int_def str_nat_values)
  have sb: "save_body ?r (joinpath [''cache''] ''python.tar.gz'')
              (empty_world\<lparr>requests_sent := requests_sent empty_world @ [example_url],
                 files := [[''cache''] \<mapsto> Dir](joinpath [''cache''] ''python.tar.gz'' \<mapsto> File [])\<rparr>)
            = (Inr (),
               empty_world\<lparr>requests_sent := requests_sent empty_world @ [example_url],
                 files := [[''cache''] \<mapsto> Dir](joinpath [''cache''] ''python.tar.gz'' \<mapsto> File ''ab''),
                 stdout := progress_line 100\<rparr>)"
    by (simp add: save_body_def sized_response_def py_int_values Let_def file_write_def d
          empty_world_def)
  have dl: "download_url (serve ?r) empty_world example_url [''cache'']
     = (Inr (joinpath [''cache''] ''python.tar.gz''),
        empty_world\<lparr>requests_sent := requests_sent empty_world @ [example_url],
                 files := [[''cache''] \<mapsto> Dir](joinpath [''cache''] ''python.tar.gz'' \<mapsto> File ''ab''),
                 stdout := progress_line 100 @ newline\<rparr>)"
    by (simp add: download_url_miss [where requests_get = "serve ?r",
        OF example_url_cache_name example_mkdir example_miss got] st op sb)
  have bar: "length (progress_bar (int_truediv (50 * 2) 1)) = 100"
    by (simp add: d progress_bar_def)
  from dl line bar show ?thesis
    by (simp add: sized_response_def py_int_values joinpath_def)
qed


section \<open>Properties of parse_config\<close>

text \<open>
  \<^verbatim>\<open>open\<close> on a path below which no regular file stands in the place of a
  directory: it raises \<^verbatim>\<open>FileNotFoundError\<close> when there is nothing at the path, and
  returns the content of the file when the file is there below directories.
\<close>

lemma first_obstacle_no_file:
  "(\<forall>k c. 0 < k \<and> k < length p \<longrightarrow> lookup fs (dir @ take k p) \<noteq> Some (File c))
   \<Longrightarrow> first_obstacle fs dir p = None \<or> first_obstacle fs dir p = Some FileNotFoundError"
proof (induction fs dir p rule: first_obstacle.induct)
  case (1 fs dir)
  then show ?case by simp
next
  case (2 fs dir name)
  then show ?case by simp
next
  case (3 fs dir c v va)
  from "3.prems" [rule_format, of 1] have here: "lookup fs (dir @ [c]) \<noteq> Some (File x)" for x
    by simp
  show ?case
  proof (cases "lookup fs (dir @ [c])")
    case None
    then show ?thesis by simp
  next
    case (Some n)
    with here have d: "lookup fs (dir @ [c]) = Some Dir" by (cases n) auto
    have "\<forall>k x. 0 < k \<and> k < length (v # va) \<longrightarrow> lookup fs ((dir @ [c]) @ take k (v # va)) \<noteq> Some (File x)"
    proof (intro allI impI)
      fix k x assume k: "0 < k \<and> k < length (v # va)"
      with "3.prems" [rule_format, of "Suc k" x] show "lookup fs ((dir @ [c]) @ take k (v # va)) \<noteq> Some (File x)"
        by simp
    qed
    from "3.IH" [OF d refl this] d show ?thesis by simp
  qed
qed

lemma first_obstacle_dirs:
  "(\<forall>k. 0 < k \<and> k < length p \<longrightarrow> is_dir fs (dir @ take k p))
   \<Longrightarrow> first_obstacle fs dir p = None"
proof (induction fs dir p rule: first_obstacle.induct)
  case (1 fs dir)
  then show ?case by simp
next
  case (2 fs dir name)
  then show ?case by simp
next
  case (3 fs dir c v va)
  from "3.prems" [rule_format, of 1] have d: "lookup fs (dir @ [c]) = Some Dir"
    by (simp add: is_dir_def)
  have "\<forall>k. 0 < k \<and> k < length (v # va) \<longrightarrow> is_dir fs ((dir @ [c]) @ take k (v # va))"
  proof (intro allI impI)
    fix k assume k: "0 < k \<and> k < length (v # va)"
    with "3.prems" [rule_format, of "Suc k"] show "is_dir fs ((dir @ [c]) @ take k (v # va))"
      by simp
  qed
  from "3.IH" [OF d refl this] d show ?case by simp
qed

lemma open_read_absent:
  assumes "lookup fs p = None"
    and "\<forall>k c. 0 < k \<and> k < length p \<longrightarrow> lookup fs (take k p) \<noteq> Some (File c)"
  shows "open_read fs p = Inl FileNotFoundError"
  using first_obstacle_no_file [of p fs "[]"] assms by (auto simp: open_read_def)

lemma open_read_present:
  assumes "lookup fs p = Some (File data)"
    and "\<forall>k. 0 < k \<and> k < length p \<longrightarrow> is_dir fs (take k p)"
  shows "open_read fs p = Inr data"
  using first_obstacle_dirs [of p fs "[]"] assms by (simp add: open_read_def)

text \<open>
  Claim C6, as the code has it. If there is nothing at the path of the configuration file
  and no regular file stands in the place of one of its directories,
  \<^verbatim>\<open>parse_config\<close> raises \<^verbatim>\<open>BriefcaseConfigError\<close> with the message
  \<^verbatim>\<open>configuration file not found\<close> and leaves the command as it was. If the file is
  there, below directories, and its reader raises an exception, as it does on a malformed
  content, \<^verbatim>\<open>parse_config\<close> raises that exception unchanged, unless it is a
  \<^verbatim>\<open>FileNotFoundError\<close>, which the handler converts as well. So the exception of
  the reader is told apart from the missing file, unless the reader raises a
  \<^verbatim>\<open>FileNotFoundError\<close> or that very \<^verbatim>\<open>BriefcaseConfigError\<close> itself.
\<close>

theorem parse_config_file_not_found:
  assumes absent: "lookup fs filename = None"
    and no_file: "\<forall>k c. 0 < k \<and> k < length filename \<longrightarrow>
                    lookup fs (take k filename) \<noteq> Some (File c)"
    and present: "lookup fs2 filename2 = Some (File toml)"
    and dirs: "\<forall>k. 0 < k \<and> k < length filename2 \<longrightarrow> is_dir fs2 (take k filename2)"
    and reader: "parser2 toml (platform self2) (output_format self2) = Inl e"
  shows "parse_config set_iter parser fs self filename
           = (Inl (BriefcaseConfigError ''configuration file not found''), self)
       \<and> parse_config set_iter parser2 fs2 self2 filename2
           = (Inl (if is_FileNotFoundError e
                   then BriefcaseConfigError ''configuration file not found'' else e), self2)
       \<and> (\<not> is_FileNotFoundError e \<and> e \<noteq> BriefcaseConfigError ''configuration file not found''
            \<longrightarrow> fst (parse_config set_iter parser2 fs2 self2 filename2)
                  \<noteq> Inl (BriefcaseConfigError ''configuration file not found''))"
proof -
  from open_read_absent [OF absent no_file]
  have "parse_config_body set_iter parser fs self filename = (Inl FileNotFoundError, self)"
    by (simp add: parse_config_body_def)
  then have one: "parse_config set_iter parser fs self filename
           = (Inl (BriefcaseConfigError ''configuration file not found''), self)"
    by (simp add: parse_config_def)
  from open_read_present [OF present dirs] reader
  have "parse_config_body set_iter parser2 fs2 self2 filename2 = (Inl e, self2)"
    by (simp add: parse_config_body_def)
  then have two: "parse_config set_iter parser2 fs2 self2 filename2
           = (Inl (if is_FileNotFoundError e
                   then BriefcaseConfigError ''configuration file not found'' else e), self2)"
    by (simp add: parse_config_def)
  from one two show ?thesis by simp
qed

text \<open>
  The theorem at the path \<^verbatim>\<open>proj/pyproject.toml\<close>, in a file system that holds the
  directory alone and in one that holds a file which the reader rejects with a
  \<^verbatim>\<open>ValueError\<close>.
\<close>

theorem parse_config_file_not_found_witness:
  "lookup [[''proj''] \<mapsto> Dir] [''proj'', ''pyproject.toml''] = None \<and>
   is_dir [[''proj''] \<mapsto> Dir] [''proj''] \<and>
   lookup [[''proj''] \<mapsto> Dir, [''proj'', ''pyproject.toml''] \<mapsto> File ''[tool'']
       [''proj'', ''pyproject.toml''] = Some (File ''[tool'') \<and>
   is_dir [[''proj''] \<mapsto> Dir, [''proj'', ''pyproject.toml''] \<mapsto> File ''[tool''] [''proj''] \<and>
   rejecting_parser ''[tool'' (platform example_command) (output_format example_command)
     = Inl (ValueError ''Invalid pyproject.toml'') \<and>
   parse_config id rejecting_parser [[''proj''] \<mapsto> Dir] example_command
       [''proj'', ''pyproject.toml'']
     = (Inl (BriefcaseConfigError ''configuration file not found''), example_command) \<and>
   parse_config id rejecting_parser
       [[''proj''] \<mapsto> Dir, [''proj'', ''pyproject.toml''] \<mapsto> File ''[tool''] example_command
       [''proj'', ''pyproject.toml'']
     = (Inl (ValueError ''Invalid pyproject.toml''), example_command) \<and>
   fst (parse_config id rejecting_parser
       [[''proj''] \<mapsto> Dir, [''proj'', ''pyproject.toml''] \<mapsto> File ''[tool''] example_command
       [''proj'', ''pyproject.toml''])
     \<noteq> Inl (BriefcaseConfigError ''configuration file not found'')"
proof -
  let ?fs = "[[''proj''] \<mapsto> Dir]"
  let ?fs2 = "[[''proj''] \<mapsto> Dir, [''proj'', ''pyproject.toml''] \<mapsto> File ''[tool'']"
  let ?p = "[''proj'', ''pyproject.toml'']"
  have k1: "k = 1" if "0 < k \<and> k < length ?p" for k :: nat
    using that by simp
  have absent: "lookup ?fs ?p = None"
    by (simp add: lookup_def)
  have d1: "is_dir ?fs [''proj'']" and d2: "is_dir ?fs2 [''proj'']"
    by (simp_all add: is_dir_def lookup_def)
  have "lookup ?fs (take k ?p) \<noteq> Some (File c)" if "0 < k \<and> k < length ?p" for k c
    using k1 [OF that] by (simp add: lookup_def)
  then have no_file: "\<forall>k c. 0 < k \<and> k < length ?p \<longrightarrow> lookup ?fs (take k ?p) \<noteq> Some (File c)"
    by blast
  have present: "lookup ?fs2 ?p = Some (File ''[tool'')"
    by (simp add: lookup_def)
  have "is_dir ?fs2 (take k ?p)" if "0 < k \<and> k < length ?p" for k
    using k1 [OF that] by (simp add: is_dir_def lookup_def)
  then have dirs: "\<forall>k. 0 < k \<and> k < length ?p \<longrightarrow> is_dir ?fs2 (take k ?p)"
    by blast
  have reader: "rejecting_parser ''[tool'' (platform example_command)
      (output_format example_command) = Inl (ValueError ''Invalid pyproject.toml'')"
    by (simp add: rejecting_parser_def)
  from parse_config_file_not_found [where parser = rejecting_parser
      and ?parser2.0 = rejecting_parser and set_iter = id and self = example_command,
      OF absent no_file present dirs reader]
  have "parse_config id rejecting_parser ?fs example_command ?p
     = (Inl (BriefcaseConfigError ''configuration file not found''), example_command)"
    and "parse_config id rejecting_parser ?fs2 example_command ?p
     = (Inl (ValueError ''Invalid pyproject.toml''), example_command)"
    and "fst (parse_config id rejecting_parser ?fs2 example_command ?p)
     \<noteq> Inl (BriefcaseConfigError ''configuration file not found'')"
    by simp_all
  with absent d1 present d2 reader show ?thesis by blast
qed

text \<open>
  Claim C6 as it is stated fails when a regular file stands in the place of a directory.
  With a regular file \<^verbatim>\<open>f\<close>, nothing is at \<^verbatim>\<open>f/pyproject.toml\<close>, and
  \<^verbatim>\<open>open\<close> raises \<^verbatim>\<open>NotADirectoryError\<close>, which is no
  \<^verbatim>\<open>FileNotFoundError\<close>: \<^verbatim>\<open>parse_config\<close> raises it unchanged. It
  fails as well on a reader that raises \<^verbatim>\<open>FileNotFoundError\<close> for a file that is
  there: the handler converts this exception too.
\<close>

theorem parse_config_file_not_found_counterexample:
  "lookup [[''f''] \<mapsto> File ''x''] [''f'', ''pyproject.toml''] = None \<and>
   lookup [[''f''] \<mapsto> File ''x''] [''f''] = Some (File ''x'') \<and>
   parse_config id rejecting_parser [[''f''] \<mapsto> File ''x''] example_command
       [''f'', ''pyproject.toml'']
     = (Inl NotADirectoryError, example_command) \<and>
   NotADirectoryError \<noteq> BriefcaseConfigError ''configuration file not found'' \<and>
   lookup [[''pyproject.toml''] \<mapsto> File ''[tool''] [''pyproject.toml'']
     = Some (File ''[tool'') \<and>
   including_parser ''[tool'' (platform example_command) (output_format example_command)
     = Inl FileNotFoundError \<and>
   parse_config id including_parser [[''pyproject.toml''] \<mapsto> File ''[tool''] example_command
       [''pyproject.toml'']
     = (Inl (BriefcaseConfigError ''configuration file not found''), example_command)"
  by (simp add: parse_config_def parse_config_body_def open_read_def lookup_def
        including_parser_def)

end
